theory Spec2Isabelle
  imports Complex_Main "HOL-Library.AList" "HOL-Library.Multiset"
begin

chapter \<open>Definitions: the table transformations of the dashboard\<close>

section \<open>Common conventions\<close>

text \<open>
  The program is a set of table transformations written against a data-frame library.
  Floating-point columns are modelled over \<^typ>\<open>real\<close>; the library's missing marker
  (NaN, NaT, a Python \<open>None\<close>) is \<^term>\<open>None\<close> of an option type. A Python exception is
  a value of the type \<open>error\<close>, returned as \<^term>\<open>Inl\<close>.
\<close>

datatype error = KeyError

fun dropna :: "'a option list \<Rightarrow> 'a list" where
  "dropna [] = []"
| "dropna (None # xs) = dropna xs"
| "dropna (Some x # xs) = x # dropna xs"

text \<open>The mean of a numeric column: NaN (here \<^term>\<open>None\<close>) on an empty column.\<close>

definition mean :: "real list \<Rightarrow> real option" where
  "mean xs = (if xs = [] then None else Some (sum_list xs / real (length xs)))"

section \<open>SGS module: the magnitude-based axis partitioner\<close>

text \<open>
  \<open>should_use_dual_axis(df, columns)\<close> of \<open>pages/modulo_sgs.py\<close>. The frame maps a
  column name to its values; \<open>df[col]\<close> on a name that is no column raises \<open>KeyError\<close>.
  The dictionary \<open>means\<close> is an association list in insertion order, which is the order
  \<open>means.items()\<close> iterates in; \<^const>\<open>AList.update\<close> overwrites a key in place and
  appends a new one, as a dictionary assignment does.
\<close>

type_synonym 'c sgs_frame = "'c \<rightharpoonup> real option list"

text \<open>\<open>df[col].dropna().abs().mean()\<close>\<close>

definition abs_mean :: "real option list \<Rightarrow> real option" where
  "abs_mean s = mean (map abs (dropna s))"

text \<open>
  The loop \<open>for col in columns\<close>. A comparison with NaN is false, so a column without
  any value does not enter \<open>means\<close>.
\<close>

fun collect_means :: "'c sgs_frame \<Rightarrow> 'c list \<Rightarrow> ('c \<times> real) list \<Rightarrow> error + ('c \<times> real) list" where
  "collect_means df [] means = Inr means"
| "collect_means df (col # cols) means =
     (case df col of
        None \<Rightarrow> Inl KeyError
      | Some s \<Rightarrow>
          (case abs_mean s of
             None \<Rightarrow> collect_means df cols means
           | Some m \<Rightarrow>
               if m > 0 then collect_means df cols (AList.update col m means)
               else collect_means df cols means))"

text \<open>\<open>sorted(means.items(), key=lambda x: x[1])\<close>: a stable sort on the mean.\<close>

definition sorted_cols :: "('c \<times> real) list \<Rightarrow> ('c \<times> real) list" where
  "sorted_cols means = sort_key snd means"

definition log_means :: "('c \<times> real) list \<Rightarrow> ('c \<times> real) list" where
  "log_means sc = map (\<lambda>(col, m). (col, log 10 m)) sc"

text \<open>
  The loop \<open>for i in range(1, len(log_means))\<close>, carrying \<open>(best_gap, best_split)\<close>.
\<close>

fun gap_loop :: "('c \<times> real) list \<Rightarrow> nat list \<Rightarrow> real \<times> nat \<Rightarrow> real \<times> nat" where
  "gap_loop lm [] (best_gap, best_split) = (best_gap, best_split)"
| "gap_loop lm (i # is) (best_gap, best_split) =
     (let gap = snd (lm ! i) - snd (lm ! (i - 1))
      in if gap > best_gap then gap_loop lm is (gap, i)
         else gap_loop lm is (best_gap, best_split))"

definition best_gap_split :: "('c \<times> real) list \<Rightarrow> real \<times> nat" where
  "best_gap_split lm = gap_loop lm [1..<length lm] (0, 1)"

definition should_use_dual_axis ::
  "'c sgs_frame \<Rightarrow> 'c list \<Rightarrow> error + (bool \<times> 'c list \<times> 'c list)" where
  "should_use_dual_axis df columns =
     (if length columns < 2 then Inr (False, columns, [])
      else
        case collect_means df columns [] of
          Inl e \<Rightarrow> Inl e
        | Inr means \<Rightarrow>
            if length means < 2 then Inr (False, columns, [])
            else
              let sc = sorted_cols means;
                  min_mean = snd (hd sc);
                  max_mean = snd (last sc)
              in if max_mean / min_mean \<le> 5 then Inr (False, columns, [])
                 else
                   let lm = log_means sc;
                       best_gap = fst (best_gap_split lm);
                       best_split = snd (best_gap_split lm)
                   in if best_gap < 0.7 then Inr (False, columns, [])
                      else
                        let group_low = map fst (take best_split lm);
                            group_high = map fst (drop best_split lm)
                        in if length group_high \<ge> length group_low
                           then Inr (True, group_high, group_low)
                           else Inr (True, group_low, group_high))"

text \<open>
  The words of the specification, for comparison with the code: the mean a variable
  qualifies with (positive, not missing), and the gaps between consecutive base-10
  logarithms of a list of means.
\<close>

definition positive_mean :: "'c sgs_frame \<Rightarrow> 'c \<Rightarrow> real option" where
  "positive_mean df col =
     (case df col of
        None \<Rightarrow> None
      | Some s \<Rightarrow> (case abs_mean s of None \<Rightarrow> None | Some m \<Rightarrow> if m > 0 then Some m else None))"

definition log_gaps :: "real list \<Rightarrow> real list" where
  "log_gaps vs = map (\<lambda>i. log 10 (vs ! i) - log 10 (vs ! (i - 1))) [1..<length vs]"

text \<open>Three frames of one row each, with the means \<open>[1, 10]\<close>, \<open>[1, 1.2, 50]\<close> and \<open>[1, 2, 3]\<close>.\<close>

definition ex_tie :: "string sgs_frame" where
  "ex_tie = [''a'' \<mapsto> [Some 1], ''b'' \<mapsto> [Some 10]]"

definition ex_split :: "string sgs_frame" where
  "ex_split = [''x'' \<mapsto> [Some 1], ''y'' \<mapsto> [Some (12/10)], ''z'' \<mapsto> [Some 50]]"

definition ex_flat :: "string sgs_frame" where
  "ex_flat = [''x'' \<mapsto> [Some 1], ''y'' \<mapsto> [Some 2], ''z'' \<mapsto> [Some 3]]"

section \<open>Interest-rate module: the latest-snapshot filter\<close>

text \<open>
  A frame of \<open>pages/modulo_taxas.py\<close>: its column names and its rows in order, a row
  giving the cell of each column. The cells are of an ordered type (timestamps);
  \<^term>\<open>None\<close> is NaT, which \<open>pd.to_datetime(..., errors="coerce")\<close> leaves where a date
  does not parse.
\<close>

record ('k, 'v) frame =
  frame_cols :: "'k list"
  frame_rows :: "('k \<Rightarrow> 'v option) list"

text \<open>\<open>df.empty\<close>: an axis of the frame has length 0.\<close>

definition df_empty :: "('k, 'v) frame \<Rightarrow> bool" where
  "df_empty df \<longleftrightarrow> frame_rows df = [] \<or> frame_cols df = []"

text \<open>\<open>Series.max()\<close> skips the missing entries and is NaT when nothing is left.\<close>

definition col_max :: "('v::linorder) option list \<Rightarrow> 'v option" where
  "col_max col = (case dropna col of [] \<Rightarrow> None | x # xs \<Rightarrow> Some (fold max xs x))"

text \<open>
  \<open>get_latest_data(df, date_col)\<close>. \<open>df[date_col]\<close> raises \<open>KeyError\<close> when the frame has
  no such column. A comparison with NaT is false, so a row without a date is never kept.
\<close>

definition get_latest_data :: "('k, 'v::linorder) frame \<Rightarrow> 'k \<Rightarrow> error + ('k, 'v) frame" where
  "get_latest_data df date_col =
     (if df_empty df then Inr df
      else if date_col \<notin> set (frame_cols df) then Inl KeyError
      else
        let max_date = col_max (map (\<lambda>r. r date_col) (frame_rows df))
        in Inr (df\<lparr>frame_rows := filter (\<lambda>r. r date_col \<noteq> None \<and> r date_col = max_date) (frame_rows df)\<rparr>))"

text \<open>
  The words of the specification: a row is at the latest date when its date-column cell
  is a date and no date present in that column of the table is later.
\<close>

definition is_latest :: "('k \<Rightarrow> ('v::linorder) option) list \<Rightarrow> 'k \<Rightarrow> ('k \<Rightarrow> 'v option) \<Rightarrow> bool" where
  "is_latest rs c r \<longleftrightarrow> (\<exists>d. r c = Some d \<and> (\<forall>r'\<in>set rs. \<forall>d'. r' c = Some d' \<longrightarrow> d' \<le> d))"

text \<open>
  A frame of three rows, one per reporting entity, two of them at the latest date.
  Column \<open>''Mes''\<close> holds the date (a day number), column \<open>''cod''\<close> the entity.
\<close>

definition ex_row :: "nat \<Rightarrow> nat \<Rightarrow> string \<Rightarrow> nat option" where
  "ex_row cod d = (\<lambda>k. if k = ''Mes'' then Some d else if k = ''cod'' then Some cod else None)"

definition ex_no_rates :: "(string, nat) frame" where
  "ex_no_rates = \<lparr>frame_cols = [''cod'', ''Mes''], frame_rows = []\<rparr>"

definition ex_rates :: "(string, nat) frame" where
  "ex_rates = \<lparr>frame_cols = [''cod'', ''Mes''], frame_rows = [ex_row 1 20, ex_row 2 31, ex_row 3 31]\<rparr>"

section \<open>IF.Data module: the variables\<close>

text \<open>
  Strings are byte lists; the Portuguese names of \<open>pages/modulo_ifdata.py\<close> are written
  in UTF-8, the bytes outside ASCII by their codes.
\<close>

definition ATIVO_TOTAL :: string where
  "ATIVO_TOTAL = ''Ativo Total''"

definition CAPTACOES :: string where
  "CAPTACOES = ''Capta'' @ [CHR 0xC3, CHR 0xA7, CHR 0xC3, CHR 0xB5] @ ''es''"

definition PATRIMONIO_LIQUIDO :: string where
  "PATRIMONIO_LIQUIDO = ''Patrim'' @ [CHR 0xC3, CHR 0xB4] @ ''nio L'' @ [CHR 0xC3, CHR 0xAD] @ ''quido''"

definition LUCRO_LIQUIDO :: string where
  "LUCRO_LIQUIDO = ''Lucro L'' @ [CHR 0xC3, CHR 0xAD] @ ''quido''"

definition INDICE_BASILEIA :: string where
  "INDICE_BASILEIA = [CHR 0xC3, CHR 0x8D] @ ''ndice de Basileia''"

definition OPERACOES_CREDITO :: string where
  "OPERACOES_CREDITO =
     ''Opera'' @ [CHR 0xC3, CHR 0xA7, CHR 0xC3, CHR 0xB5] @ ''es de Cr'' @ [CHR 0xC3, CHR 0xA9] @ ''dito''"

definition PERDA_ESPERADA_CREDITO :: string where
  "PERDA_ESPERADA_CREDITO = ''Perda Esperada de Cr'' @ [CHR 0xC3, CHR 0xA9] @ ''dito''"

definition RESUMO_VARS :: "string list" where
  "RESUMO_VARS = [ATIVO_TOTAL, CAPTACOES, PATRIMONIO_LIQUIDO, LUCRO_LIQUIDO, INDICE_BASILEIA]"

definition ATIVO_COL_OP_CREDITO :: string where
  "ATIVO_COL_OP_CREDITO = OPERACOES_CREDITO @ '' '' @ [CHR 0x0A] @ ''(e)''"

definition ATIVO_COL_BRUTO :: string where
  "ATIVO_COL_BRUTO = ''Valor Cont'' @ [CHR 0xC3, CHR 0xA1] @ ''bil Bruto '' @ [CHR 0x0A] @ ''(e1)''"

definition ATIVO_COL_PERDA :: string where
  "ATIVO_COL_PERDA = ''Perda Esperada '' @ [CHR 0x0A] @ ''(e2)''"

definition ALL_VARIABLES :: "string list" where
  "ALL_VARIABLES = [ATIVO_TOTAL, CAPTACOES, PATRIMONIO_LIQUIDO, LUCRO_LIQUIDO, INDICE_BASILEIA,
                    OPERACOES_CREDITO, PERDA_ESPERADA_CREDITO]"

text \<open>\<open>RANKING_DESC.get(var, True)\<close>: every variable but the loss ratio ranks descending.\<close>

definition RANKING_DESC :: "string \<rightharpoonup> bool" where
  "RANKING_DESC = [ATIVO_TOTAL \<mapsto> True, CAPTACOES \<mapsto> True, PATRIMONIO_LIQUIDO \<mapsto> True,
                   LUCRO_LIQUIDO \<mapsto> True, INDICE_BASILEIA \<mapsto> True, OPERACOES_CREDITO \<mapsto> True,
                   PERDA_ESPERADA_CREDITO \<mapsto> False]"

definition ranking_desc :: "string \<Rightarrow> bool" where
  "ranking_desc var = (case RANKING_DESC var of None \<Rightarrow> True | Some b \<Rightarrow> b)"

section \<open>IF.Data module: the registry filter\<close>

text \<open>
  A row of the registry (\<open>IfDataCadastro\<close>), with the three columns the program reads,
  and the registry frame with its column names. A missing name or segment is
  \<^term>\<open>None\<close>.
\<close>

record 'c cadastro_row =
  cad_CodInst :: 'c
  NomeInstituicao :: "string option"
  Sr :: "string option"

record 'c cadastro =
  cad_columns :: "string list"
  cad_rows :: "'c cadastro_row list"

definition ascii_upper :: "char \<Rightarrow> char" where
  "ascii_upper c =
     (case map_of (zip ''abcdefghijklmnopqrstuvwxyz'' ''ABCDEFGHIJKLMNOPQRSTUVWXYZ'') c of
        None \<Rightarrow> c
      | Some u \<Rightarrow> u)"

text \<open>
  \<open>Series.str.contains(pat, case=False)\<close> for a pattern of plain letters: some segment
  of the string equals the pattern up to the case of ASCII letters.
\<close>

fun contains_ci :: "string \<Rightarrow> string \<Rightarrow> bool" where
  "contains_ci pat [] = (pat = [])"
| "contains_ci pat (c # s) =
     (map ascii_upper (take (length pat) (c # s)) = map ascii_upper pat \<or> contains_ci pat s)"

text \<open>\<open>drop_duplicates(subset=[key])\<close> keeps the first row of each key.\<close>

fun drop_duplicates :: "('a \<Rightarrow> 'k) \<Rightarrow> 'k list \<Rightarrow> 'a list \<Rightarrow> 'a list" where
  "drop_duplicates key seen [] = []"
| "drop_duplicates key seen (x # xs) =
     (if key x \<in> set seen then drop_duplicates key seen xs
      else x # drop_duplicates key (key x # seen) xs)"

text \<open>
  \<open>filter_institutions(df_cadastro)\<close>: segments S1 to S4, a name containing
  \<open>PRUDENCIAL\<close> (\<open>na=False\<close>: a missing name does not match), one row per \<open>CodInst\<close>.
  Selecting a column the frame does not have raises \<open>KeyError\<close>.
\<close>

definition filter_institutions :: "'c cadastro \<Rightarrow> error + 'c cadastro_row list" where
  "filter_institutions df_cadastro =
     (if ''Sr'' \<notin> set (cad_columns df_cadastro) then Inl KeyError
      else
        let df = filter (\<lambda>r. Sr r \<in> {Some ''S1'', Some ''S2'', Some ''S3'', Some ''S4''})
                   (cad_rows df_cadastro)
        in if ''NomeInstituicao'' \<notin> set (cad_columns df_cadastro) then Inl KeyError
           else
             let df = filter (\<lambda>r. case NomeInstituicao r of None \<Rightarrow> False
                                     | Some n \<Rightarrow> contains_ci ''PRUDENCIAL'' n) df
             in if ''CodInst'' \<notin> set (cad_columns df_cadastro) then Inl KeyError
                else Inr (drop_duplicates cad_CodInst [] df))"

section \<open>IF.Data module: merge and pivot\<close>

text \<open>
  A row of a value table (\<open>IfDataValores\<close>): entity, variable name and balance.
  \<open>Saldo\<close> is the cell after \<open>pd.to_numeric(..., errors="coerce")\<close>: a number, or
  \<^term>\<open>None\<close> (NaN) where the cell is missing or does not parse.
\<close>

record 'c value_row =
  CodInst :: 'c
  NomeColuna :: string
  Saldo :: "real option"

text \<open>An entry of the list \<open>records\<close>: the dictionary with the keys below.\<close>

record 'c long_record =
  rec_CodInst :: 'c
  Variable :: string
  Value :: "real option"

text \<open>
  The wide table: its variable columns and its rows. A row holds the entity, the display
  name and the cell of each variable column (\<^term>\<open>None\<close> is NaN). The columns
  \<open>CodInst\<close> and \<open>NomeInstituicao\<close> are the first two fields of the row.
\<close>

record 'c wide_row =
  w_CodInst :: 'c
  w_Nome :: "string option"
  w_val :: "string \<Rightarrow> real option"

record 'c wide_table =
  wide_columns :: "string list"
  wide_rows :: "'c wide_row list"

definition is_space :: "char \<Rightarrow> bool" where
  "is_space c \<longleftrightarrow> c \<in> set [CHR '' '', CHR 0x09, CHR 0x0A, CHR 0x0B, CHR 0x0C, CHR 0x0D]"

text \<open>\<open>str.strip()\<close>, on the white space of ASCII.\<close>

definition strip :: "string \<Rightarrow> string" where
  "strip s = rev (dropWhile is_space (rev (dropWhile is_space s)))"

text \<open>
  The numeric rounding \<open>round(x, 2)\<close>: to the nearest hundredth, a tie to the even
  neighbour.
\<close>

definition round_half_even :: "real \<Rightarrow> int" where
  "round_half_even x =
     (let f = \<lfloor>x\<rfloor>; d = x - of_int f
      in if d < 1/2 then f else if d > 1/2 then f + 1 else if even f then f else f + 1)"

definition round2 :: "real \<Rightarrow> real" where
  "round2 x = of_int (round_half_even (x * 100)) / 100"

text \<open>The loop over \<open>df_resumo\<close>; the capital-ratio variable comes as a fraction.\<close>

definition resumo_record :: "'c list \<Rightarrow> 'c value_row \<Rightarrow> 'c long_record list" where
  "resumo_record valid_codes row =
     (if CodInst row \<in> set valid_codes then
        let var_name = strip (NomeColuna row)
        in if var_name \<in> set RESUMO_VARS then
             let val = Saldo row;
                 val = (if var_name = INDICE_BASILEIA \<and> val \<noteq> None
                        then map_option (\<lambda>v. v * 100) val else val)
             in [\<lparr>rec_CodInst = CodInst row, Variable = var_name, Value = val\<rparr>]
           else []
      else [])"

definition resumo_records :: "'c list \<Rightarrow> 'c value_row list \<Rightarrow> 'c long_record list" where
  "resumo_records valid_codes df_resumo = concat (map (resumo_record valid_codes) df_resumo)"

text \<open>
  The loop over \<open>df_ativo\<close> fills the dictionary \<open>ativo_data\<close>, entity to (column name to
  value). The outer dictionary is kept in insertion order, the order the next loop
  iterates in; a later row of the same entity and column overwrites the earlier value.
\<close>

definition target_cols :: "string set" where
  "target_cols = {ATIVO_COL_OP_CREDITO, ATIVO_COL_BRUTO, ATIVO_COL_PERDA}"

text \<open>\<open>ativo_data[cod]\<close> after \<open>if cod not in ativo_data: ativo_data[cod] = {}\<close>.\<close>

definition entity_vals :: "('c \<times> (string \<rightharpoonup> real option)) list \<Rightarrow> 'c \<Rightarrow> (string \<rightharpoonup> real option)" where
  "entity_vals ativo_data cod = (case map_of ativo_data cod of None \<Rightarrow> Map.empty | Some d \<Rightarrow> d)"

fun collect_ativo ::
  "'c list \<Rightarrow> 'c value_row list \<Rightarrow> ('c \<times> (string \<rightharpoonup> real option)) list
     \<Rightarrow> ('c \<times> (string \<rightharpoonup> real option)) list" where
  "collect_ativo valid_codes [] ativo_data = ativo_data"
| "collect_ativo valid_codes (row # rest) ativo_data =
     (if CodInst row \<in> set valid_codes \<and> NomeColuna row \<in> target_cols then
        let cod = CodInst row;
            vals = entity_vals ativo_data cod
        in collect_ativo valid_codes rest
             (AList.update cod (vals(NomeColuna row \<mapsto> Saldo row)) ativo_data)
      else collect_ativo valid_codes rest ativo_data)"

text \<open>
  \<open>vals.get(key)\<close>: \<open>None\<close> for an absent key, else the stored value, which may be NaN;
  \<open>pd.notna\<close> is false on both.
\<close>

definition dict_get :: "(string \<rightharpoonup> real option) \<Rightarrow> string \<Rightarrow> real option" where
  "dict_get vals key = (case vals key of None \<Rightarrow> None | Some v \<Rightarrow> v)"

definition derived_records :: "'c \<times> (string \<rightharpoonup> real option) \<Rightarrow> 'c long_record list" where
  "derived_records item =
     (let cod = fst item; vals = snd item;
          op_cred = dict_get vals ATIVO_COL_OP_CREDITO;
          bruto = dict_get vals ATIVO_COL_BRUTO;
          perda = dict_get vals ATIVO_COL_PERDA
      in (if op_cred \<noteq> None
          then [\<lparr>rec_CodInst = cod, Variable = OPERACOES_CREDITO, Value = op_cred\<rparr>] else [])
       @ (if bruto \<noteq> None \<and> perda \<noteq> None \<and> bruto \<noteq> Some 0
          then [\<lparr>rec_CodInst = cod, Variable = PERDA_ESPERADA_CREDITO,
                 Value = Some (round2 (\<bar>the perda\<bar> / the bruto * 100))\<rparr>]
          else []))"

text \<open>The list \<open>records\<close> at the point where the frame is built from it.\<close>

definition all_records ::
  "'c value_row list \<Rightarrow> 'c value_row list \<Rightarrow> 'c cadastro_row list \<Rightarrow> 'c long_record list" where
  "all_records df_resumo df_ativo df_cadastro_filtered =
     (let valid_codes = map cad_CodInst df_cadastro_filtered
      in resumo_records valid_codes df_resumo
         @ concat (map derived_records (collect_ativo valid_codes df_ativo [])))"




text \<open>
  \<open>pivot_table(index="CodInst", columns="Variable", values="Value", aggfunc="first")\<close>:
  the cell of an entity and a variable is the first value of their records that is not
  NaN; an entity or a variable without any such value gets no row or column; rows are
  sorted by entity and columns by name. The variable names of \<open>records\<close> are among
  seven, listed here in the sorted order of their code points.
\<close>

definition first_valid :: "'a option list \<Rightarrow> 'a option" where
  "first_valid xs = (case dropna xs of [] \<Rightarrow> None | x # _ \<Rightarrow> Some x)"

definition pivot_cell :: "'c long_record list \<Rightarrow> 'c \<Rightarrow> string \<Rightarrow> real option" where
  "pivot_cell records cod var =
     first_valid (map Value (filter (\<lambda>r. rec_CodInst r = cod \<and> Variable r = var) records))"

definition pivot_index :: "('c::linorder) long_record list \<Rightarrow> 'c list" where
  "pivot_index records = sort (remdups (map rec_CodInst (filter (\<lambda>r. Value r \<noteq> None) records)))"

definition PIVOT_COLUMN_ORDER :: "string list" where
  "PIVOT_COLUMN_ORDER = [ATIVO_TOTAL, CAPTACOES, LUCRO_LIQUIDO, OPERACOES_CREDITO,
                         PATRIMONIO_LIQUIDO, PERDA_ESPERADA_CREDITO, INDICE_BASILEIA]"

definition pivot_columns :: "'c long_record list \<Rightarrow> string list" where
  "pivot_columns records =
     filter (\<lambda>v. \<exists>r\<in>set records. Variable r = v \<and> Value r \<noteq> None) PIVOT_COLUMN_ORDER"

text \<open>
  The display name: \<open>str.replace(r"\s*[-\<dots>]\s*PRUDENCIAL", "", regex=True)\<close>, the class
  holding the hyphen and the en dash (three bytes in UTF-8), then \<open>str.strip()\<close>.
  \<open>match_suffix s\<close> matches the pattern at the start of \<open>s\<close> and gives what follows the
  match. No character of a later part of the pattern is a space, so the greedy \<open>\s*\<close>
  never gives a character back.
\<close>

definition strip_dash :: "string \<Rightarrow> string option" where
  "strip_dash s =
     (if take 1 s = ''-'' then Some (drop 1 s)
      else if take 3 s = [CHR 0xE2, CHR 0x80, CHR 0x93] then Some (drop 3 s)
      else None)"

definition match_suffix :: "string \<Rightarrow> string option" where
  "match_suffix s =
     (case strip_dash (dropWhile is_space s) of
        None \<Rightarrow> None
      | Some s2 \<Rightarrow>
          let s3 = dropWhile is_space s2
          in if take 10 s3 = ''PRUDENCIAL'' then Some (drop 10 s3) else None)"

function remove_suffix :: "string \<Rightarrow> string" where
  "remove_suffix [] = []"
| "remove_suffix (c # s) =
     (case match_suffix (c # s) of
        Some rest \<Rightarrow> remove_suffix rest
      | None \<Rightarrow> c # remove_suffix s)"
  by pat_completeness auto
termination
proof (relation "measure length")
  fix c :: char and s rest :: string
  assume m: "match_suffix (c # s) = Some rest"
  from m obtain s2 where d: "strip_dash (dropWhile is_space (c # s)) = Some s2"
    and r: "rest = drop 10 (dropWhile is_space s2)"
    by (auto simp: match_suffix_def Let_def split: option.splits if_splits)
  have "length s2 < length (dropWhile is_space (c # s))"
    using d by (cases "dropWhile is_space (c # s)") (auto simp: strip_dash_def split: if_splits)
  moreover have "length (dropWhile is_space (c # s)) \<le> length (c # s)"
    by (rule length_dropWhile_le)
  moreover have "length rest \<le> length s2"
    unfolding r using length_dropWhile_le[of is_space s2] by simp
  ultimately show "(rest, c # s) \<in> measure length" by simp
qed simp_all

definition clean_name :: "string option \<Rightarrow> string option" where
  "clean_name n = map_option (\<lambda>s. strip (remove_suffix s)) n"

text \<open>
  \<open>df_pivot.merge(df_cadastro_filtered[["CodInst", "NomeInstituicao"]], on="CodInst",
  how="left")\<close>: every row of the pivot, in order, once for each registry row of its
  entity, and once with a missing name when the registry has none.
\<close>

definition merge_names ::
  "'c long_record list \<Rightarrow> 'c cadastro_row list \<Rightarrow> 'c \<Rightarrow> 'c wide_row list" where
  "merge_names records df_cadastro_filtered cod =
     (let matches = filter (\<lambda>c. cad_CodInst c = cod) df_cadastro_filtered;
          names = (if matches = [] then [None] else map NomeInstituicao matches)
      in map (\<lambda>n. \<lparr>w_CodInst = cod, w_Nome = clean_name n,
                     w_val = (\<lambda>var. if var \<in> set (pivot_columns records)
                                      then pivot_cell records cod var else None)\<rparr>) names)"

text \<open>\<open>build_ranking_data\<close>; without records it returns a frame with no column and no row.\<close>

definition build_ranking_data ::
  "('c::linorder) value_row list \<Rightarrow> 'c value_row list \<Rightarrow> 'c cadastro_row list \<Rightarrow> 'c wide_table" where
  "build_ranking_data df_resumo df_ativo df_cadastro_filtered =
     (let records = all_records df_resumo df_ativo df_cadastro_filtered
      in if records = [] then \<lparr>wide_columns = [], wide_rows = []\<rparr>
         else \<lparr>wide_columns = pivot_columns records,
               wide_rows = concat (map (merge_names records df_cadastro_filtered)
                                       (pivot_index records))\<rparr>)"


text \<open>
  An example after the end-to-end scenario of the specification: a registry with a
  duplicated entity and an entity whose name does not qualify, total assets of two
  entities, and the loss components, the gross value of entity 20 being zero.
\<close>

definition ex_cadastro :: "nat cadastro" where
  "ex_cadastro = \<lparr>cad_columns = [''CodInst'', ''NomeInstituicao'', ''Sr''],
     cad_rows = [\<lparr>cad_CodInst = 10, NomeInstituicao = Some ''Bank One - PRUDENCIAL'', Sr = Some ''S1''\<rparr>,
                 \<lparr>cad_CodInst = 20, NomeInstituicao = Some ''Bank Two - Prudencial'', Sr = Some ''S3''\<rparr>,
                 \<lparr>cad_CodInst = 10, NomeInstituicao = Some ''Bank One (copy) - PRUDENCIAL'', Sr = Some ''S1''\<rparr>,
                 \<lparr>cad_CodInst = 30, NomeInstituicao = Some ''Bank'', Sr = Some ''S2''\<rparr>]\<rparr>"

definition ex_registry :: "nat cadastro_row list" where
  "ex_registry = [\<lparr>cad_CodInst = 10, NomeInstituicao = Some ''Bank One - PRUDENCIAL'', Sr = Some ''S1''\<rparr>,
                  \<lparr>cad_CodInst = 20, NomeInstituicao = Some ''Bank Two - Prudencial'', Sr = Some ''S3''\<rparr>]"

definition ex_resumo :: "nat value_row list" where
  "ex_resumo = [\<lparr>CodInst = 10, NomeColuna = ATIVO_TOTAL, Saldo = Some 1000000000\<rparr>,
                \<lparr>CodInst = 20, NomeColuna = ATIVO_TOTAL, Saldo = Some 2000000000\<rparr>]"

definition ex_ativo :: "nat value_row list" where
  "ex_ativo = [\<lparr>CodInst = 10, NomeColuna = ATIVO_COL_PERDA, Saldo = Some (- 50)\<rparr>,
               \<lparr>CodInst = 10, NomeColuna = ATIVO_COL_BRUTO, Saldo = Some 1000\<rparr>,
               \<lparr>CodInst = 20, NomeColuna = ATIVO_COL_BRUTO, Saldo = Some 0\<rparr>,
               \<lparr>CodInst = 20, NomeColuna = ATIVO_COL_PERDA, Saldo = Some 10\<rparr>]"

section \<open>IF.Data module: ranking and position\<close>

text \<open>\<open>df.empty\<close> of a wide table: a table with rows has the column \<open>CodInst\<close>.\<close>

definition wide_empty :: "'c wide_table \<Rightarrow> bool" where
  "wide_empty df \<longleftrightarrow> wide_rows df = []"



text \<open>\<open>df_ranking[["NomeInstituicao", var]].dropna(subset=[var])\<close>\<close>

definition df_var :: "'c wide_table \<Rightarrow> string \<Rightarrow> 'c wide_row list" where
  "df_var df var = filter (\<lambda>r. w_val r var \<noteq> None) (wide_rows df)"

text \<open>
  \<open>sort_values(var, ascending=...)\<close> on rows that all have a value. Rows of equal value
  keep their order: the stable order that the specification names (the library's default
  algorithm leaves the order of equal keys open).
\<close>

definition sort_values :: "string \<Rightarrow> bool \<Rightarrow> 'c wide_row list \<Rightarrow> 'c wide_row list" where
  "sort_values var ascending rs =
     (if ascending then sort_key (\<lambda>r. the (w_val r var)) rs
      else sort_key (\<lambda>r. - the (w_val r var)) rs)"



text \<open>
  \<open>render_ranking_table\<close>: row \<open>i\<close> of the frame is shown with the rank \<open>i + 1\<close>, the
  name and the value (the formatting of the value is left out).
\<close>

definition render_ranking_table :: "'c wide_row list \<Rightarrow> string \<Rightarrow> (nat \<times> string option \<times> real option) list" where
  "render_ranking_table df var =
     map (\<lambda>(i, row). (i + 1, w_Nome row, w_val row var)) (enumerate 0 df)"


text \<open>
  The position of \<open>render_bank_tab\<close>: \<open>rank\<close> and \<open>n\<close> of the string
  \<open>"{rank} of {n}"\<close>, or \<^term>\<open>None\<close> for the dash shown when the bank has no value.
\<close>

definition bank_position :: "'c wide_table \<Rightarrow> 'c wide_row \<Rightarrow> string \<Rightarrow> (nat \<times> nat) option" where
  "bank_position df_ranking bank_row var =
     (case w_val bank_row var of
        None \<Rightarrow> None
      | Some val \<Rightarrow>
          let is_desc = ranking_desc var;
              dv = df_var df_ranking var;
              rank = (if is_desc then length (filter (\<lambda>r. the (w_val r var) > val) dv) + 1
                      else length (filter (\<lambda>r. the (w_val r var) < val) dv) + 1);
              n = length dv
          in Some (rank, n))"

text \<open>
  The overview table of \<open>render_bank_tab\<close> for the selected bank: variable, value and
  position, read from the first row with that name. No table is shown for an empty
  frame or an unknown name.
\<close>

definition render_bank_tab ::
  "'c wide_table \<Rightarrow> string \<Rightarrow> (string \<times> real option \<times> (nat \<times> nat) option) list option" where
  "render_bank_tab df_ranking selected_bank =
     (if wide_empty df_ranking then None
      else if selected_bank = [] then None
      else
        let bank_row = filter (\<lambda>r. w_Nome r = Some selected_bank) (wide_rows df_ranking)
        in if bank_row = [] then None
           else Some (concat (map (\<lambda>var.
                  if var \<notin> set (wide_columns df_ranking) then []
                  else [(var, w_val (hd bank_row) var,
                         bank_position df_ranking (hd bank_row) var)]) ALL_VARIABLES)))"

text \<open>
  The words of the specification: the full ranking of a variable (the frame \<open>df_top\<close>
  before \<open>head(10)\<close>), and a cell being strictly more extreme than a value in the
  direction of the variable.
\<close>

definition full_ranking :: "'c wide_table \<Rightarrow> string \<Rightarrow> 'c wide_row list" where
  "full_ranking df var = sort_values var (\<not> ranking_desc var) (df_var df var)"

definition more_extreme :: "string \<Rightarrow> real option \<Rightarrow> real \<Rightarrow> bool" where
  "more_extreme var cell v =
     (case cell of None \<Rightarrow> False | Some x \<Rightarrow> if ranking_desc var then x > v else x < v)"


text \<open>
  A wide table with the single variable column \<open>Ativo Total\<close>: two banks of equal assets,
  a larger one, and one without a value.
\<close>

definition ex_bank :: "nat \<Rightarrow> string \<Rightarrow> real option \<Rightarrow> nat wide_row" where
  "ex_bank cod name assets =
     \<lparr>w_CodInst = cod, w_Nome = Some name,
      w_val = (\<lambda>var. if var = ATIVO_TOTAL then assets else None)\<rparr>"

definition ex_ties :: "nat wide_table" where
  "ex_ties = \<lparr>wide_columns = [ATIVO_TOTAL],
              wide_rows = [ex_bank 1 ''A'' (Some 2000000000), ex_bank 2 ''B'' (Some 2000000000),
                           ex_bank 3 ''C'' (Some 5000000000), ex_bank 4 ''D'' None]\<rparr>"

section \<open>SGS module: resampling\<close>

text \<open>
  \<open>resample_data(df, freq)\<close> of \<open>pages/modulo_sgs.py\<close> is the one line
  \<open>df.resample(pd_freq).mean()\<close>. The frame has a date index and numeric columns: a
  row is its timestamp (year, month, day) and the cell of each column. The model of the
  library call follows the library's documented behaviour: the bins are the consecutive
  periods from the period of the earliest timestamp to the period of the latest one,
  each labelled by its last day; the mean of a bin skips missing cells and is NaN when
  the bin has no value.
\<close>

type_synonym timestamp = "nat \<times> nat \<times> nat"

type_synonym 'c ts_row = "timestamp \<times> ('c \<Rightarrow> real option)"

definition pd_freq :: "string \<Rightarrow> string" where
  "pd_freq freq = (if freq = ''M'' then ''ME'' else if freq = ''A'' then ''YE'' else freq)"

definition leap_year :: "nat \<Rightarrow> bool" where
  "leap_year y \<longleftrightarrow> (y mod 4 = 0 \<and> y mod 100 \<noteq> 0) \<or> y mod 400 = 0"

definition days_in_month :: "nat \<Rightarrow> nat \<Rightarrow> nat" where
  "days_in_month y m =
     (if m = 2 then (if leap_year y then 29 else 28)
      else if m \<in> {4, 6, 9, 11} then 30 else 31)"

text \<open>
  The number of the period a timestamp falls into (months counted from year 0), and the
  label of a period. Only the month-end and year-end frequencies are modelled; the
  program passes no other.
\<close>

definition period_of :: "string \<Rightarrow> timestamp \<Rightarrow> nat option" where
  "period_of f ts =
     (case ts of (y, m, d) \<Rightarrow>
        if f = ''ME'' then Some (y * 12 + (m - 1))
        else if f = ''YE'' then Some y
        else None)"

definition period_label :: "string \<Rightarrow> nat \<Rightarrow> timestamp" where
  "period_label f k =
     (if f = ''ME'' then (k div 12, k mod 12 + 1, days_in_month (k div 12) (k mod 12 + 1))
      else (k, 12, 31))"

text \<open>The values of a column that fall into a period, and the mean of the bin.\<close>

definition period_values :: "string \<Rightarrow> 'c ts_row list \<Rightarrow> nat \<Rightarrow> 'c \<Rightarrow> real list" where
  "period_values f df k c =
     dropna (map (\<lambda>row. snd row c) (filter (\<lambda>row. period_of f (fst row) = Some k) df))"

definition bin_mean :: "string \<Rightarrow> 'c ts_row list \<Rightarrow> nat \<Rightarrow> 'c \<Rightarrow> real option" where
  "bin_mean f df k c = mean (period_values f df k c)"

definition resample_mean :: "string \<Rightarrow> 'c ts_row list \<Rightarrow> 'c ts_row list" where
  "resample_mean f df =
     (case map (\<lambda>row. the (period_of f (fst row))) df of
        [] \<Rightarrow> []
      | k # ks \<Rightarrow>
          map (\<lambda>p. (period_label f p, bin_mean f df p))
              [fold min ks k ..< Suc (fold max ks k)])"

definition resample_data :: "'c ts_row list \<Rightarrow> string \<Rightarrow> 'c ts_row list option" where
  "resample_data df freq =
     (if pd_freq freq \<in> {''ME'', ''YE''} then Some (resample_mean (pd_freq freq) df) else None)"

text \<open>The periods in which a frame has a row.\<close>

definition periods :: "string \<Rightarrow> 'c ts_row list \<Rightarrow> nat set" where
  "periods f df = (\<lambda>row. the (period_of f (fst row))) ` set df"

text \<open>A series with one observation in January and one in March 2024.\<close>

definition ex_series :: "string ts_row list" where
  "ex_series = [((2024, 1, 15), (\<lambda>c. if c = ''v'' then Some 1 else None)),
                ((2024, 3, 15), (\<lambda>c. if c = ''v'' then Some 3 else None))]"

section \<open>Delinquency module: the geo-shading classifier\<close>

text \<open>
  The shading of \<open>make_brazil_map\<close> in \<open>pages/modulo_inad.py\<close>. \<open>state_data\<close> maps a
  state to its two rates (\<open>pf\<close>, \<open>pj\<close>), each a number or missing; a state that is no
  key has no rates (\<open>state_data.get(uf, {})\<close>).
\<close>

definition REGIONS :: "(string \<times> string list) list" where
  "REGIONS =
     [(''N'',  [''AC'', ''AP'', ''AM'', ''PA'', ''RO'', ''RR'', ''TO'']),
      (''NE'', [''AL'', ''BA'', ''CE'', ''MA'', ''PB'', ''PE'', ''PI'', ''RN'', ''SE'']),
      (''CO'', [''DF'', ''GO'', ''MT'', ''MS'']),
      (''SE'', [''ES'', ''MG'', ''RJ'', ''SP'']),
      (''S'',  [''PR'', ''RS'', ''SC''])]"

text \<open>The two nested loops that fill \<open>STATE_TO_REGION\<close>.\<close>

definition STATE_TO_REGION :: "string \<rightharpoonup> string" where
  "STATE_TO_REGION =
     fold (\<lambda>(reg, states) m. fold (\<lambda>uf m. m(uf \<mapsto> reg)) states m) REGIONS Map.empty"

text \<open>\<open>sorted(STATE_TO_REGION.keys())\<close>, written out.\<close>

definition ALL_STATES :: "string list" where
  "ALL_STATES =
     [''AC'', ''AL'', ''AM'', ''AP'', ''BA'', ''CE'', ''DF'', ''ES'', ''GO'', ''MA'', ''MG'',
      ''MS'', ''MT'', ''PA'', ''PB'', ''PE'', ''PI'', ''PR'', ''RJ'', ''RN'', ''RO'', ''RR'',
      ''RS'', ''SC'', ''SE'', ''SP'', ''TO'']"

text \<open>The base colours of the regions as red, green and blue; the default is \<open>#94A3B8\<close>.\<close>

definition REGION_COLORS :: "string \<rightharpoonup> int \<times> int \<times> int" where
  "REGION_COLORS =
     [''N'' \<mapsto> (0x22, 0xD3, 0xEE), ''NE'' \<mapsto> (0x34, 0xD3, 0x99), ''CO'' \<mapsto> (0xFB, 0xBF, 0x24),
      ''SE'' \<mapsto> (0xFB, 0x71, 0x85), ''S'' \<mapsto> (0xA7, 0x8B, 0xFA)]"

type_synonym state_data = "string \<rightharpoonup> real option \<times> real option"

text \<open>The mean of the rates of a state that are present, \<open>None\<close> when both are missing.\<close>

definition npl_avg :: "state_data \<Rightarrow> string \<Rightarrow> real option" where
  "npl_avg state_data uf =
     (let s_data = (case state_data uf of None \<Rightarrow> (None, None) | Some d \<Rightarrow> d);
          pf = fst s_data;
          pj = snd s_data;
          vals = dropna [pf, pj]
      in mean vals)"

text \<open>The entry of a region in \<open>region_npl_values\<close>; a region without a state has none.\<close>

definition region_npl_values :: "state_data \<Rightarrow> string \<Rightarrow> (string \<times> real option) list" where
  "region_npl_values state_data reg =
     map (\<lambda>uf. (uf, npl_avg state_data uf)) (filter (\<lambda>uf. STATE_TO_REGION uf = Some reg) ALL_STATES)"

text \<open>
  The entry of a region in \<open>region_ranges\<close>: minimum and maximum of the values of its
  states, and \<open>(0, 1)\<close> when there is no value or the two coincide.
\<close>

definition region_ranges :: "state_data \<Rightarrow> string \<Rightarrow> (real \<times> real) option" where
  "region_ranges state_data reg =
     (case region_npl_values state_data reg of
        [] \<Rightarrow> None
      | items \<Rightarrow>
          (case dropna (map snd items) of
             [] \<Rightarrow> Some (0, 1)
           | v # vs \<Rightarrow>
               if fold max vs v > fold min vs v then Some (fold min vs v, fold max vs v)
               else Some (0, 1)))"

text \<open>
  The factor computed for the feature of a state in the loop over the map features;
  \<^term>\<open>None\<close> when the loop skips the feature (no code, or an unknown one).
\<close>

definition shade_factor :: "state_data \<Rightarrow> string \<Rightarrow> real option" where
  "shade_factor state_data uf =
     (if uf = [] \<or> STATE_TO_REGION uf = None then None
      else
        let reg = the (STATE_TO_REGION uf);
            npl = npl_avg state_data uf;
            rng = (case region_ranges state_data reg of None \<Rightarrow> (0, 1) | Some r \<Rightarrow> r)
        in Some (if npl \<noteq> None \<and> snd rng > fst rng
                 then (the npl - fst rng) / (snd rng - fst rng)
                 else 0.5))"

text \<open>\<open>int(x)\<close> truncates towards zero.\<close>

definition py_int :: "real \<Rightarrow> int" where
  "py_int x = (if x \<ge> 0 then \<lfloor>x\<rfloor> else \<lceil>x\<rceil>)"

text \<open>
  \<open>shade_color\<close>, on the three channels of the base colour (the parsing of the hex string
  and the formatting of the result are left out).
\<close>

definition shade_channel :: "int \<Rightarrow> real \<Rightarrow> int" where
  "shade_channel c factor =
     (let blend = 0.3 + 0.7 * factor
      in min 255 (py_int (of_int c * blend + 255 * (1 - blend))))"

definition shade_color :: "int \<times> int \<times> int \<Rightarrow> real \<Rightarrow> int \<times> int \<times> int" where
  "shade_color base factor =
     (case base of (r, g, b) \<Rightarrow>
        (shade_channel r factor, shade_channel g factor, shade_channel b factor))"

definition fill_color :: "state_data \<Rightarrow> string \<Rightarrow> (int \<times> int \<times> int) option" where
  "fill_color state_data uf =
     (case shade_factor state_data uf of
        None \<Rightarrow> None
      | Some factor \<Rightarrow>
          let reg = the (STATE_TO_REGION uf);
              base_color = (case REGION_COLORS reg of None \<Rightarrow> (0x94, 0xA3, 0xB8) | Some c \<Rightarrow> c)
          in Some (shade_color base_color factor))"

text \<open>
  Two inputs: in the first only the state PR of the region S has rates (both 3), in
  the second the three states of the region have the averages 2, 3 and 4.
\<close>

definition ex_single_state :: state_data where
  "ex_single_state = [''PR'' \<mapsto> (Some 3, Some 3)]"

definition ex_three_states :: state_data where
  "ex_three_states = [''PR'' \<mapsto> (Some 2, Some 2), ''RS'' \<mapsto> (Some 3, None), ''SC'' \<mapsto> (Some 3, Some 5)]"

chapter \<open>Properties\<close>

section \<open>The axis partitioner\<close>

subsection \<open>The dictionary of qualifying means\<close>

lemma collect_means_Inr:
  "collect_means df cols acc = Inr means \<Longrightarrow>
     map_of means = (\<lambda>c. if c \<in> set cols \<and> positive_mean df c \<noteq> None
                          then positive_mean df c else map_of acc c)
     \<and> (distinct (map fst acc) \<longrightarrow> distinct (map fst means))"
proof (induction cols arbitrary: acc)
  case Nil
  then show ?case by simp
next
  case (Cons col cols)
  from Cons.prems obtain s where s: "df col = Some s"
    by (auto split: option.splits)
  show ?case
  proof (cases "positive_mean df col")
    case None
    then have "collect_means df cols acc = Inr means"
      using Cons.prems s by (auto simp: positive_mean_def split: option.splits if_splits)
    from Cons.IH[OF this] None show ?thesis by (auto simp: fun_eq_iff)
  next
    case (Some m)
    then have "collect_means df cols (AList.update col m acc) = Inr means"
      using Cons.prems s by (auto simp: positive_mean_def split: option.splits if_splits)
    from Cons.IH[OF this] Some show ?thesis
      by (auto simp: fun_eq_iff update_conv' distinct_update)
  qed
qed

lemma collect_means_length:
  assumes "collect_means df cols [] = Inr means"
  shows "length means = card {c \<in> set cols. positive_mean df c \<noteq> None}"
proof -
  from collect_means_Inr[OF assms]
  have m: "map_of means = (\<lambda>c. if c \<in> set cols then positive_mean df c else None)"
    and d: "distinct (map fst means)" by (auto simp: fun_eq_iff)
  have "dom (map_of means) = {c \<in> set cols. positive_mean df c \<noteq> None}"
    unfolding m by (auto simp: dom_def)
  moreover have "card (dom (map_of means)) = length means"
    using d by (simp add: dom_map_of_conv_image_fst distinct_card flip: set_map)
  ultimately show ?thesis by simp
qed

lemma collect_means_KeyError:
  "\<exists>c\<in>set cols. df c = None \<Longrightarrow> collect_means df cols acc = Inl KeyError"
  by (induction cols arbitrary: acc) (auto split: option.splits)

subsection \<open>Sorting by mean, and the largest gap\<close>

lemma sort_key_Nil_iff: "sort_key f xs = [] \<longleftrightarrow> xs = []"
  by (metis length_0_conv length_sort)

lemma map_snd_sorted_cols: "map snd (sorted_cols means) = sort (map snd means)"
  unfolding sorted_cols_def
  by (rule properties_for_sort[symmetric]) (simp_all add: sorted_sort_key)

lemma sorted_hd_is_Min: "sorted xs \<Longrightarrow> xs \<noteq> [] \<Longrightarrow> hd xs = Min (set xs)"
  by (cases xs) (auto intro!: Min_eqI[symmetric])

lemma sorted_last_is_Max: "sorted xs \<Longrightarrow> xs \<noteq> [] \<Longrightarrow> last xs = Max (set xs)"
  by (induction xs) (auto intro!: Max_eqI[symmetric] simp: max_def dest: last_in_set)

lemma sorted_cols_hd:
  assumes "means \<noteq> []"
  shows "snd (hd (sorted_cols means)) = Min (snd ` set means)"
proof -
  have ne: "sorted_cols means \<noteq> []" using assms
    by (simp add: sorted_cols_def sort_key_Nil_iff)
  have "snd (hd (sorted_cols means)) = hd (map snd (sorted_cols means))"
    using ne by (simp add: hd_map)
  also have "\<dots> = Min (set (sort (map snd means)))"
    unfolding map_snd_sorted_cols using assms
    by (intro sorted_hd_is_Min) (simp_all add: sort_key_Nil_iff)
  finally show ?thesis by simp
qed

lemma sorted_cols_last:
  assumes "means \<noteq> []"
  shows "snd (last (sorted_cols means)) = Max (snd ` set means)"
proof -
  have ne: "sorted_cols means \<noteq> []" using assms
    by (simp add: sorted_cols_def sort_key_Nil_iff)
  have "snd (last (sorted_cols means)) = last (map snd (sorted_cols means))"
    using ne by (simp add: last_map)
  also have "\<dots> = Max (set (sort (map snd means)))"
    unfolding map_snd_sorted_cols using assms
    by (intro sorted_last_is_Max) (simp_all add: sort_key_Nil_iff)
  finally show ?thesis by simp
qed

lemma gap_loop_below:
  "bg < t \<Longrightarrow> \<forall>i\<in>set is. snd (lm ! i) - snd (lm ! (i - 1)) < t \<Longrightarrow>
   fst (gap_loop lm is (bg, bs)) < t"
  by (induction "is" arbitrary: bg bs) (auto simp: Let_def)

lemma snd_log_means_nth:
  "i < length sc \<Longrightarrow> snd (log_means sc ! i) = log 10 (map snd sc ! i)"
  by (simp add: log_means_def split: prod.splits)

lemma best_gap_below:
  assumes "\<forall>g\<in>set (log_gaps (sort (map snd means))). g < t" and "0 < t"
  shows "fst (best_gap_split (log_means (sorted_cols means))) < t"
proof -
  let ?sc = "sorted_cols means"
  have len: "length (log_means ?sc) = length ?sc" by (simp add: log_means_def)
  have len2: "length (sort (map snd means)) = length ?sc"
    by (metis map_snd_sorted_cols length_map)
  have "\<forall>i\<in>set [1..<length ?sc].
          snd (log_means ?sc ! i) - snd (log_means ?sc ! (i - 1)) < t"
  proof
    fix i assume i: "i \<in> set [1..<length ?sc]"
    then have "log 10 (sort (map snd means) ! i) - log 10 (sort (map snd means) ! (i - 1))
                 \<in> set (log_gaps (sort (map snd means)))"
      unfolding log_gaps_def len2 by auto
    with assms have "log 10 (sort (map snd means) ! i) - log 10 (sort (map snd means) ! (i - 1)) < t"
      by blast
    moreover from i have "i < length ?sc" "i - 1 < length ?sc" by auto
    ultimately show "snd (log_means ?sc ! i) - snd (log_means ?sc ! (i - 1)) < t"
      by (simp add: snd_log_means_nth map_snd_sorted_cols)
  qed
  with \<open>0 < t\<close> show ?thesis
    unfolding best_gap_split_def len by (intro gap_loop_below) auto
qed

lemma no_split_general:
  assumes cm: "collect_means df columns [] = Inr means"
    and c: "length means < 2
            \<or> Max (snd ` set means) / Min (snd ` set means) \<le> 5
            \<or> (\<forall>g\<in>set (log_gaps (sort (map snd means))). g < 7/10)"
  shows "should_use_dual_axis df columns = Inr (False, columns, [])"
proof (cases "length columns < 2 \<or> length means < 2")
  case True
  then show ?thesis by (auto simp: should_use_dual_axis_def cm)
next
  case False
  then have ne: "means \<noteq> []" by auto
  from c False consider
      (ratio) "Max (snd ` set means) / Min (snd ` set means) \<le> 5"
    | (gap) "\<forall>g\<in>set (log_gaps (sort (map snd means))). g < 7/10"
    by blast
  then show ?thesis
  proof cases
    case ratio
    then show ?thesis using False
      by (simp add: should_use_dual_axis_def cm Let_def sorted_cols_hd[OF ne] sorted_cols_last[OF ne])
  next
    case gap
    then have "fst (best_gap_split (log_means (sorted_cols means))) < 7/10"
      by (intro best_gap_below) auto
    then show ?thesis using False
      by (simp add: should_use_dual_axis_def cm Let_def)
  qed
qed

lemma sorted_take_drop_le:
  assumes "sorted (map snd xs)" "a \<in> set (take k xs)" "b \<in> set (drop k xs)"
  shows "snd a \<le> snd b"
proof -
  have "sorted (map snd (take k xs) @ map snd (drop k xs))"
    using assms(1) by (simp flip: map_append)
  then show ?thesis using assms(2,3) by (auto simp: sorted_append)
qed

subsection \<open>The three example frames\<close>

lemma ex_tie_means: "collect_means ex_tie [''a'', ''b''] [] = Inr [(''a'', 1), (''b'', 10)]"
  by (simp add: ex_tie_def abs_mean_def mean_def)

lemma ex_tie_result: "should_use_dual_axis ex_tie [''a'', ''b''] = Inr (True, [''b''], [''a''])"
  apply (simp only: should_use_dual_axis_def ex_tie_means sum.case Let_def)
  apply (simp add: sorted_cols_def log_means_def best_gap_split_def)
  done

lemma ex_split_means:
  "collect_means ex_split [''x'', ''y'', ''z''] [] = Inr [(''x'', 1), (''y'', 6/5), (''z'', 50)]"
  by (simp add: ex_split_def abs_mean_def mean_def)

lemma ex_flat_means:
  "collect_means ex_flat [''x'', ''y'', ''z''] [] = Inr [(''x'', 1), (''y'', 2), (''z'', 3)]"
  by (simp add: ex_flat_def abs_mean_def mean_def)

lemma log10_gap: "0 < a \<Longrightarrow> 0 < b \<Longrightarrow> log 10 b - log 10 a = log 10 (b / a)"
  by (simp add: log_divide_pos)

lemma ex_split_gap1: "log 10 (6/5::real) < log 10 50 - log 10 (6/5)"
  unfolding log10_gap[of "6/5" 50, simplified] by (subst log_less_cancel_iff) simp_all

lemma ex_split_gap2: "\<not> log 10 (50::real) - log 10 (6/5) < 7/10"
proof -
  have "log 10 (10::real) \<le> log 10 (125/3)" by (subst log_le_cancel_iff) simp_all
  then have "1 \<le> log 10 (125/3::real)" by simp
  then have "\<not> log 10 (125/3::real) < 7/10" by linarith
  then show ?thesis unfolding log10_gap[of "6/5" 50, simplified] .
qed

lemma ex_split_best:
  "best_gap_split [(''x'', log 10 (1::real)), (''y'', log 10 (6/5)), (''z'', log 10 50)]
     = (log 10 50 - log 10 (6/5), 2)"
  using ex_split_gap1 unfolding best_gap_split_def
  by (simp add: upt_rec numeral_2_eq_2 numeral_3_eq_3 Let_def)

lemma ex_split_result:
  "should_use_dual_axis ex_split [''x'', ''y'', ''z''] = Inr (True, [''x'', ''y''], [''z''])"
proof -
  have sc: "sorted_cols [(''x'', 1::real), (''y'', 6/5), (''z'', 50)]
              = [(''x'', 1), (''y'', 6/5), (''z'', 50)]"
    by (simp add: sorted_cols_def)
  have lm: "log_means [(''x'', 1::real), (''y'', 6/5), (''z'', 50)]
              = [(''x'', log 10 1), (''y'', log 10 (6/5)), (''z'', log 10 50)]"
    by (simp add: log_means_def)
  show ?thesis
    using ex_split_gap2
    apply (simp only: should_use_dual_axis_def ex_split_means sum.case Let_def sc lm ex_split_best)
    apply simp
    done
qed

lemma ex_flat_result:
  "should_use_dual_axis ex_flat [''x'', ''y'', ''z''] = Inr (False, [''x'', ''y'', ''z''], [])"
  apply (simp only: should_use_dual_axis_def ex_flat_means sum.case Let_def)
  apply (simp add: sorted_cols_def)
  done

subsection \<open>Which group is the primary one\<close>

text \<open>
  Claim C1, as the specification states it: when a split is performed, the group with
  more members is the primary group and the other one the secondary group, and when
  both groups have the same number of members the high-magnitude group is the
  secondary one. The last part fails: with the means \<open>a = 1\<close> and \<open>b = 10\<close> the groups
  are \<open>[a]\<close> (low) and \<open>[b]\<close> (high), one member each, and the code returns the high
  group \<open>[b]\<close> as primary and the low group \<open>[a]\<close> as secondary.
\<close>

theorem should_use_dual_axis_tie_counterexample:
  "collect_means ex_tie [''a'', ''b''] [] = Inr [(''a'', 1), (''b'', 10)]
   \<and> should_use_dual_axis ex_tie [''a'', ''b''] = Inr (True, [''b''], [''a''])
   \<and> should_use_dual_axis ex_tie [''a'', ''b''] \<noteq> Inr (True, [''a''], [''b''])"
  unfolding ex_tie_means ex_tie_result by simp

text \<open>
  Claim C1, amended: when a split is performed, the columns sorted by mean are cut at
  the split index into a low group and a high group (no mean of the low group exceeds
  a mean of the high group); the primary group is never smaller than the secondary
  one; the low group is primary exactly when it has strictly more members than the
  high group, and otherwise, in particular on a tie, the high group is primary and the
  low group secondary.
\<close>

theorem should_use_dual_axis_majority:
  assumes "should_use_dual_axis df columns = Inr (True, primary, secondary)"
  shows "\<exists>means. collect_means df columns [] = Inr means \<and>
     (let sc = sorted_cols means;
          k = snd (best_gap_split (log_means sc));
          group_low = map fst (take k sc);
          group_high = map fst (drop k sc)
      in (\<forall>a\<in>set (take k sc). \<forall>b\<in>set (drop k sc). snd a \<le> snd b) \<and>
         length secondary \<le> length primary \<and>
         (if length group_low \<le> length group_high
          then primary = group_high \<and> secondary = group_low
          else primary = group_low \<and> secondary = group_high))"
proof -
  from assms obtain means where cm: "collect_means df columns [] = Inr means"
    by (auto simp: should_use_dual_axis_def split: if_splits sum.splits)
  have srt: "sorted (map snd (sorted_cols means))"
    by (simp add: sorted_cols_def sorted_sort_key)
  have grp: "map fst (take k (log_means sc)) = map fst (take k sc)"
            "map fst (drop k (log_means sc)) = map fst (drop k sc)" for k and sc :: "('a \<times> real) list"
    by (simp_all add: log_means_def take_map drop_map split_def)
  show ?thesis
    using assms sorted_take_drop_le[OF srt]
    by (auto simp: should_use_dual_axis_def cm Let_def grp split: if_splits)
qed

theorem should_use_dual_axis_majority_witness:
  "should_use_dual_axis ex_split [''x'', ''y'', ''z''] = Inr (True, [''x'', ''y''], [''z''])
   \<and> (\<exists>means. collect_means ex_split [''x'', ''y'', ''z''] [] = Inr means \<and>
     (let sc = sorted_cols means;
          k = snd (best_gap_split (log_means sc));
          group_low = map fst (take k sc);
          group_high = map fst (drop k sc)
      in (\<forall>a\<in>set (take k sc). \<forall>b\<in>set (drop k sc). snd a \<le> snd b) \<and>
         length [''z''] \<le> length [''x'', ''y''] \<and>
         (if length group_low \<le> length group_high
          then [''x'', ''y''] = group_high \<and> [''z''] = group_low
          else [''x'', ''y''] = group_low \<and> [''z''] = group_high)))"
  using should_use_dual_axis_majority[OF ex_split_result] ex_split_result by blast

subsection \<open>When a split happens\<close>

text \<open>
  Claim C7: for the means \<open>[1, 1.2, 50]\<close> the partitioner splits, with \<open>{50}\<close> as the
  secondary group and \<open>{1, 1.2}\<close> as the primary group; for the means \<open>[1, 2, 3]\<close> it
  does not split. In general, with \<open>means\<close> the dictionary of the variables that have a
  positive mean (as many entries as there are such variables), no split occurs when it
  has fewer than two entries, or the largest mean divided by the smallest is at most 5,
  or every gap between consecutive base-10 logarithms of the sorted means is below 0.7.
\<close>

theorem axis_split_threshold:
  assumes "collect_means df columns [] = Inr means"
  shows "should_use_dual_axis ex_split [''x'', ''y'', ''z''] = Inr (True, [''x'', ''y''], [''z''])
    \<and> should_use_dual_axis ex_flat [''x'', ''y'', ''z''] = Inr (False, [''x'', ''y'', ''z''], [])
    \<and> length means = card {c \<in> set columns. positive_mean df c \<noteq> None}
    \<and> (length means < 2
         \<or> Max (snd ` set means) / Min (snd ` set means) \<le> 5
         \<or> (\<forall>g\<in>set (log_gaps (sort (map snd means))). g < 7/10)
        \<longrightarrow> should_use_dual_axis df columns = Inr (False, columns, []))"
  using no_split_general[OF assms] collect_means_length[OF assms] ex_split_result ex_flat_result
  by blast

theorem axis_split_threshold_witness:
  "collect_means ex_flat [''x'', ''y'', ''z''] [] = Inr [(''x'', 1), (''y'', 2), (''z'', 3)]
   \<and> Max (snd ` set [(''x'', 1::real), (''y'', 2), (''z'', 3)])
       / Min (snd ` set [(''x'', 1::real), (''y'', 2), (''z'', 3)]) \<le> 5
   \<and> should_use_dual_axis ex_flat [''x'', ''y'', ''z''] = Inr (False, [''x'', ''y'', ''z''], [])"
proof -
  have r: "Max (snd ` set [(''x'', 1::real), (''y'', 2), (''z'', 3)])
       / Min (snd ` set [(''x'', 1::real), (''y'', 2), (''z'', 3)]) \<le> 5"
    by simp
  from axis_split_threshold[OF ex_flat_means] r
  have "should_use_dual_axis ex_flat [''x'', ''y'', ''z''] = Inr (False, [''x'', ''y'', ''z''], [])"
    by blast
  with r ex_flat_means show ?thesis by blast
qed

section \<open>The latest-snapshot filter\<close>

lemma fold_max_Max: "fold max xs (x::'a::linorder) = Max (set (x # xs))"
  by (simp add: Max.set_eq_fold del: set_simps)

lemma set_dropna: "set (dropna xs) = {x. Some x \<in> set xs}"
  by (induction xs rule: dropna.induct) auto

lemma col_max_None: "col_max col = None \<longleftrightarrow> (\<forall>x\<in>set col. x = None)"
proof -
  have "dropna col = [] \<longleftrightarrow> (\<forall>x\<in>set col. x = None)"
    by (induction col rule: dropna.induct) auto
  then show ?thesis by (auto simp: col_max_def split: list.splits)
qed

lemma col_max_Some:
  "col_max col = Some m \<longleftrightarrow> Some m \<in> set col \<and> (\<forall>d. Some d \<in> set col \<longrightarrow> d \<le> m)"
proof (cases "dropna col")
  case Nil
  then have "{x. Some x \<in> set col} = {}" using set_dropna[of col] by simp
  then show ?thesis using Nil by (auto simp: col_max_def)
next
  case (Cons x xs)
  have fin: "finite (set (x # xs))" by simp
  have eq: "set (x # xs) = {x. Some x \<in> set col}" using set_dropna[of col] Cons by simp
  have "col_max col = Some (Max (set (x # xs)))"
    by (simp add: col_max_def Cons fold_max_Max del: set_simps)
  moreover have "Max (set (x # xs)) = m \<longleftrightarrow> m \<in> set (x # xs) \<and> (\<forall>d\<in>set (x # xs). d \<le> m)"
    using fin by (metis Max_eqI Max_ge Max_in list.distinct(1) set_empty)
  ultimately show ?thesis unfolding eq by auto
qed

lemma latest_filter:
  "filter (\<lambda>r. r c \<noteq> None \<and> r c = col_max (map (\<lambda>r. r c) rs)) rs = filter (is_latest rs c) rs"
proof (rule filter_cong[OF refl])
  fix r assume r: "r \<in> set rs"
  show "(r c \<noteq> None \<and> r c = col_max (map (\<lambda>r. r c) rs)) = is_latest rs c r"
  proof (cases "r c")
    case None
    then show ?thesis by (simp add: is_latest_def)
  next
    case (Some d)
    have in_col: "Some e \<in> set (map (\<lambda>r. r c) rs) \<longleftrightarrow> (\<exists>r'\<in>set rs. r' c = Some e)" for e
      by (auto simp: image_iff) metis
    have "col_max (map (\<lambda>r. r c) rs) = Some d \<longleftrightarrow> (\<forall>r'\<in>set rs. \<forall>d'. r' c = Some d' \<longrightarrow> d' \<le> d)"
      unfolding col_max_Some in_col using r Some by blast
    then show ?thesis using Some by (auto simp: is_latest_def)
  qed
qed

lemma get_latest_data_KeyError:
  "\<not> df_empty df \<Longrightarrow> c \<notin> set (frame_cols df) \<Longrightarrow> get_latest_data df c = Inl KeyError"
  by (simp add: get_latest_data_def)

lemma ex_rates_latest:
  "filter (is_latest (frame_rows ex_rates) ''Mes'') (frame_rows ex_rates) = [ex_row 2 31, ex_row 3 31]"
  by (simp add: is_latest_def ex_rates_def ex_row_def)

text \<open>
  Claim C8: the latest-snapshot filter returns an empty table unchanged; on a table
  that is not empty and has the date column it returns the table with exactly the rows
  (in their order, each as often as it occurs) whose date-column value is the maximum
  date present, so that all the rows sharing the maximum date are retained.
\<close>

theorem get_latest_data_max_rows:
  "(df_empty df \<longrightarrow> get_latest_data df c = Inr df) \<and>
   (\<not> df_empty df \<and> c \<in> set (frame_cols df) \<longrightarrow>
      get_latest_data df c
        = Inr (df\<lparr>frame_rows := filter (is_latest (frame_rows df) c) (frame_rows df)\<rparr>))"
  by (simp add: get_latest_data_def latest_filter Let_def del: not_None_eq)

theorem get_latest_data_max_rows_witness:
  "df_empty ex_no_rates \<and> get_latest_data ex_no_rates ''Mes'' = Inr ex_no_rates
   \<and> \<not> df_empty ex_rates \<and> ''Mes'' \<in> set (frame_cols ex_rates)
   \<and> get_latest_data ex_rates ''Mes''
        = Inr (ex_rates\<lparr>frame_rows := [ex_row 2 31, ex_row 3 31]\<rparr>)"
proof -
  have e: "df_empty ex_no_rates" by (simp add: df_empty_def ex_no_rates_def)
  have n: "\<not> df_empty ex_rates" "''Mes'' \<in> set (frame_cols ex_rates)"
    by (simp_all add: df_empty_def ex_rates_def)
  from get_latest_data_max_rows[of ex_no_rates "''Mes''"] e
  have 1: "get_latest_data ex_no_rates ''Mes'' = Inr ex_no_rates" by blast
  from get_latest_data_max_rows[of ex_rates "''Mes''"] n
  have 2: "get_latest_data ex_rates ''Mes''
        = Inr (ex_rates\<lparr>frame_rows := [ex_row 2 31, ex_row 3 31]\<rparr>)"
    unfolding ex_rates_latest by blast
  from e n 1 2 show ?thesis by blast
qed

section \<open>Ranking and position in the IF.Data module\<close>

subsection \<open>The materiality filter\<close>






subsection \<open>Position by counting and position in the sorted ranking\<close>

lemma ranking_desc_iff: "ranking_desc var \<longleftrightarrow> var \<noteq> PERDA_ESPERADA_CREDITO"
  by (auto simp: ranking_desc_def RANKING_DESC_def split: option.splits if_splits)

lemma filter_df_var_more_extreme:
  "filter (\<lambda>r. if ranking_desc var then the (w_val r var) > v else the (w_val r var) < v) (df_var df var)
     = filter (\<lambda>r. more_extreme var (w_val r var) v) (wide_rows df)"
  unfolding df_var_def filter_filter
  by (rule filter_cong) (auto simp: more_extreme_def split: option.splits)

lemma bank_position_eq:
  assumes "w_val bank_row var = Some v"
  shows "bank_position df bank_row var
           = Some (length (filter (\<lambda>r. more_extreme var (w_val r var) v) (wide_rows df)) + 1,
                   length (filter (\<lambda>r. w_val r var \<noteq> None) (wide_rows df)))"
proof -
  have "(if ranking_desc var then length (filter (\<lambda>r. the (w_val r var) > v) (df_var df var)) + 1
         else length (filter (\<lambda>r. the (w_val r var) < v) (df_var df var)) + 1)
        = length (filter (\<lambda>r. if ranking_desc var then the (w_val r var) > v else the (w_val r var) < v) (df_var df var)) + 1"
    by simp
  then show ?thesis
    unfolding bank_position_def Let_def assms option.case filter_df_var_more_extreme
    by (simp add: df_var_def)
qed

lemma length_filter_mono: "(\<forall>x\<in>set xs. P x \<longrightarrow> Q x) \<Longrightarrow> length (filter P xs) \<le> length (filter Q xs)"
  by (induction xs) auto

lemma length_filter_strict:
  "(\<forall>x\<in>set xs. P x \<longrightarrow> Q x) \<Longrightarrow> x \<in> set xs \<Longrightarrow> Q x \<Longrightarrow> \<not> P x
     \<Longrightarrow> length (filter P xs) < length (filter Q xs)"
proof (induction xs)
  case Nil
  then show ?case by simp
next
  case (Cons a xs)
  have mono: "length (filter P xs) \<le> length (filter Q xs)"
    using Cons.prems(1) by (intro length_filter_mono) auto
  show ?case
  proof (cases "x = a")
    case True
    then show ?thesis using Cons.prems mono by auto
  next
    case False
    then have "length (filter P xs) < length (filter Q xs)"
      using Cons.prems by (intro Cons.IH) auto
    then show ?thesis using Cons.prems(1) by auto
  qed
qed

lemma more_extreme_bounds:
  assumes "bank_row \<in> set (wide_rows df)" "w_val bank_row var = Some v"
  shows "length (filter (\<lambda>r. more_extreme var (w_val r var) v) (wide_rows df)) + 1
           \<le> length (filter (\<lambda>r. w_val r var \<noteq> None) (wide_rows df))"
proof -
  have "length (filter (\<lambda>r. more_extreme var (w_val r var) v) (wide_rows df))
          < length (filter (\<lambda>r. w_val r var \<noteq> None) (wide_rows df))"
    using assms
    by (intro length_filter_strict[where x = bank_row]) (auto simp: more_extreme_def split: option.splits)
  then show ?thesis by simp
qed

lemma render_bank_tab_rows:
  assumes "render_bank_tab df selected_bank = Some tbl" "(var, cell, pos) \<in> set tbl"
  shows "\<exists>row\<in>set (wide_rows df). w_Nome row = Some selected_bank \<and> cell = w_val row var
            \<and> pos = bank_position df row var"
proof -
  let ?b = "filter (\<lambda>r. w_Nome r = Some selected_bank) (wide_rows df)"
  from assms(1) have ne: "?b \<noteq> []"
    by (auto simp: render_bank_tab_def Let_def split: if_splits)
  then have "hd ?b \<in> set ?b" by (rule hd_in_set)
  then have h: "hd ?b \<in> set (wide_rows df)" "w_Nome (hd ?b) = Some selected_bank" by auto
  from assms have "cell = w_val (hd ?b) var \<and> pos = bank_position df (hd ?b) var"
    by (auto simp: render_bank_tab_def Let_def split: if_splits)
  with h show ?thesis by blast
qed

lemma sorted_index_count:
  fixes k :: "'a \<Rightarrow> 'b::linorder"
  assumes "sorted (map k xs)" "i < length xs"
  shows "length (filter (\<lambda>x. k x < k (xs ! i)) xs) + length (filter (\<lambda>x. k x = k (xs ! i)) (take i xs)) = i"
proof -
  let ?v = "k (xs ! i)"
  have le: "\<forall>x\<in>set (take i xs). k x \<le> ?v"
  proof
    fix x assume "x \<in> set (take i xs)"
    then obtain j where "j < i" "x = xs ! j" using assms(2)
      by (auto simp: in_set_conv_nth)
    then show "k x \<le> ?v" using sorted_nth_mono[OF assms(1), of j i] assms(2) by simp
  qed
  have ge: "\<forall>x\<in>set (drop i xs). ?v \<le> k x"
  proof
    fix x assume "x \<in> set (drop i xs)"
    then obtain j where "j < length xs - i" "x = xs ! (i + j)"
      by (auto simp: in_set_conv_nth)
    then show "?v \<le> k x" using sorted_nth_mono[OF assms(1), of i "i + j"] by simp
  qed
  have "filter (\<lambda>x. k x < ?v) (drop i xs) = []"
    using ge by (auto simp: filter_empty_conv)
  then have "filter (\<lambda>x. k x < ?v) xs = filter (\<lambda>x. k x < ?v) (take i xs)"
    by (metis append_take_drop_id filter_append append_Nil2)
  moreover have "filter (\<lambda>x. k x = ?v) (take i xs) = filter (\<lambda>x. \<not> k x < ?v) (take i xs)"
    using le by (intro filter_cong) auto
  moreover have "length (filter (\<lambda>x. k x < ?v) (take i xs))
                  + length (filter (\<lambda>x. \<not> k x < ?v) (take i xs)) = length (take i xs)"
    by (rule sum_length_filter_compl)
  ultimately show ?thesis using assms(2) by simp
qed

lemma length_filter_mset: "mset xs = mset ys \<Longrightarrow> length (filter P xs) = length (filter P ys)"
  by (metis mset_filter size_mset)

lemma full_ranking_props:
  "mset (full_ranking df var) = mset (df_var df var)"
  "sorted (map (\<lambda>r. if ranking_desc var then - the (w_val r var) else the (w_val r var)) (full_ranking df var))"
  by (auto simp: full_ranking_def sort_values_def sorted_sort_key)

lemma rank_position:
  assumes "i < length (full_ranking df var)"
  shows "\<exists>rank n. bank_position df (full_ranking df var ! i) var = Some (rank, n)
           \<and> rank + length (filter (\<lambda>r. w_val r var = w_val (full_ranking df var ! i) var)
                                (take i (full_ranking df var))) = i + 1
           \<and> n = length (full_ranking df var)"
proof -
  let ?rk = "full_ranking df var"
  let ?k = "\<lambda>r. if ranking_desc var then - the (w_val r var) else the (w_val r var)"
  have sub: "set ?rk = set (df_var df var)"
    using full_ranking_props(1)[of df var] by (metis set_mset_mset)
  have nn: "\<forall>r\<in>set ?rk. w_val r var \<noteq> None" unfolding sub by (simp add: df_var_def)
  from assms have "?rk ! i \<in> set ?rk" by simp
  with nn obtain v where v: "w_val (?rk ! i) var = Some v" by auto
  have cnt: "length (filter (\<lambda>r. ?k r < ?k (?rk ! i)) ?rk)
            + length (filter (\<lambda>r. ?k r = ?k (?rk ! i)) (take i ?rk)) = i"
    using sorted_index_count[OF full_ranking_props(2) assms] .
  have f1: "filter (\<lambda>r. ?k r < ?k (?rk ! i)) ?rk
              = filter (\<lambda>r. if ranking_desc var then the (w_val r var) > v else the (w_val r var) < v) ?rk"
    using v by (intro filter_cong) auto
  have f2: "filter (\<lambda>r. ?k r = ?k (?rk ! i)) (take i ?rk)
              = filter (\<lambda>r. w_val r var = w_val (?rk ! i) var) (take i ?rk)"
    using v nn by (intro filter_cong) (auto dest!: in_set_takeD)
  have f3: "length (filter (\<lambda>r. if ranking_desc var then the (w_val r var) > v else the (w_val r var) < v) ?rk)
          = length (filter (\<lambda>r. more_extreme var (w_val r var) v) (wide_rows df))"
    unfolding filter_df_var_more_extreme[symmetric]
    by (rule length_filter_mset) (rule full_ranking_props)
  have n: "length (filter (\<lambda>r. w_val r var \<noteq> None) (wide_rows df)) = length ?rk"
    using full_ranking_props(1)[of df var] by (metis df_var_def size_mset)
  show ?thesis
    unfolding bank_position_eq[OF v] using cnt unfolding f1 f2 f3 n by simp
qed

subsection \<open>The example table\<close>

lemma ativo_desc: "ranking_desc ATIVO_TOTAL"
  by (simp add: ranking_desc_iff ATIVO_TOTAL_def PERDA_ESPERADA_CREDITO_def)

lemma ex_ties_df_var:
  "df_var ex_ties ATIVO_TOTAL = [ex_bank 1 ''A'' (Some 2000000000), ex_bank 2 ''B'' (Some 2000000000),
                           ex_bank 3 ''C'' (Some 5000000000)]"
  by (simp add: df_var_def ex_ties_def ex_bank_def)

lemma ex_ties_ranking:
  "full_ranking ex_ties ATIVO_TOTAL
     = [ex_bank 3 ''C'' (Some 5000000000), ex_bank 1 ''A'' (Some 2000000000), ex_bank 2 ''B'' (Some 2000000000)]"
  unfolding full_ranking_def ex_ties_df_var
  by (simp add: sort_values_def ativo_desc ex_bank_def)

lemma ex_ties_position:
  "bank_position ex_ties (ex_bank 2 ''B'' (Some 2000000000)) ATIVO_TOTAL = Some (2, 3)"
  unfolding bank_position_def ex_ties_df_var 
  by (simp add: ativo_desc ex_bank_def)

lemma ex_render:
 "render_ranking_table (full_ranking ex_ties ATIVO_TOTAL) ATIVO_TOTAL
   = [(1, Some ''C'', Some 5000000000), (2, Some ''A'', Some 2000000000), (3, Some ''B'', Some 2000000000)]"
  unfolding ex_ties_ranking
  by (simp add: render_ranking_table_def enumerate_eq_zip ex_bank_def upt_rec)



lemma ex_ties_bank_tab:
  "render_bank_tab ex_ties ''B'' = Some [(ATIVO_TOTAL, Some 2000000000, Some (2, 3))]"
proof -
  have b: "filter (\<lambda>r. w_Nome r = Some ''B'') (wide_rows ex_ties) = [ex_bank 2 ''B'' (Some 2000000000)]"
    by (simp add: ex_ties_def ex_bank_def)
  have c: "wide_columns ex_ties = [ATIVO_TOTAL]" by (simp add: ex_ties_def)
  have e: "\<not> wide_empty ex_ties" by (simp add: wide_empty_def ex_ties_def)
  have v: "w_val (ex_bank 2 ''B'' (Some 2000000000)) ATIVO_TOTAL = Some 2000000000"
    by (simp add: ex_bank_def)
  have n: "CAPTACOES \<noteq> ATIVO_TOTAL" "PATRIMONIO_LIQUIDO \<noteq> ATIVO_TOTAL"
    "LUCRO_LIQUIDO \<noteq> ATIVO_TOTAL" "INDICE_BASILEIA \<noteq> ATIVO_TOTAL"
    "OPERACOES_CREDITO \<noteq> ATIVO_TOTAL" "PERDA_ESPERADA_CREDITO \<noteq> ATIVO_TOTAL"
    by (simp_all add: ATIVO_TOTAL_def CAPTACOES_def PATRIMONIO_LIQUIDO_def
        LUCRO_LIQUIDO_def INDICE_BASILEIA_def OPERACOES_CREDITO_def PERDA_ESPERADA_CREDITO_def)
  show ?thesis
    by (simp add: render_bank_tab_def ALL_VARIABLES_def b c e v n ex_ties_position)
qed

subsection \<open>The claims\<close>



text \<open>
  Claim C5: for an entity (a row of the table) with a value for a variable, the
  individual-bank position has as rank the number of rows with a strictly more extreme
  value (strictly greater when the variable ranks descending, strictly smaller when
  ascending) plus 1, and as denominator the number of rows with a value for that
  variable, not the number of rows of the table. The rank lies between 1 and the
  denominator. What the bank tab shows for a selected name is this position of a row
  with that name.
\<close>

theorem bank_position_count:
  assumes "bank_row \<in> set (wide_rows df)" and "w_val bank_row var = Some v"
  shows "\<exists>rank n. bank_position df bank_row var = Some (rank, n)
      \<and> rank = length (filter (\<lambda>r. more_extreme var (w_val r var) v) (wide_rows df)) + 1
      \<and> n = length (filter (\<lambda>r. w_val r var \<noteq> None) (wide_rows df))
      \<and> 1 \<le> rank \<and> rank \<le> n \<and> n \<le> length (wide_rows df)
      \<and> (\<forall>name tbl cell pos.
            render_bank_tab df name = Some tbl \<and> (var, cell, pos) \<in> set tbl
            \<longrightarrow> (\<exists>row\<in>set (wide_rows df). w_Nome row = Some name \<and> cell = w_val row var
                     \<and> pos = bank_position df row var))"
  using bank_position_eq[OF assms(2), of df] more_extreme_bounds[OF assms] render_bank_tab_rows[of df]
  by (auto simp del: not_None_eq)

theorem bank_position_count_witness:
  "ex_bank 2 ''B'' (Some 2000000000) \<in> set (wide_rows ex_ties)
   \<and> w_val (ex_bank 2 ''B'' (Some 2000000000)) ATIVO_TOTAL = Some 2000000000
   \<and> bank_position ex_ties (ex_bank 2 ''B'' (Some 2000000000)) ATIVO_TOTAL = Some (2, 3)
   \<and> length (filter (\<lambda>r. more_extreme ATIVO_TOTAL (w_val r ATIVO_TOTAL) 2000000000) (wide_rows ex_ties)) = 1
   \<and> length (filter (\<lambda>r. w_val r ATIVO_TOTAL \<noteq> None) (wide_rows ex_ties)) = 3
   \<and> length (wide_rows ex_ties) = 4
   \<and> render_bank_tab ex_ties ''B'' = Some [(ATIVO_TOTAL, Some 2000000000, Some (2, 3))]"
proof -
  let ?b = "ex_bank 2 ''B'' (Some 2000000000)"
  have m: "?b \<in> set (wide_rows ex_ties)" by (simp add: ex_ties_def)
  have v: "w_val ?b ATIVO_TOTAL = Some 2000000000" by (simp add: ex_bank_def)
  from bank_position_count[OF m v] ex_ties_position
  have "length (filter (\<lambda>r. more_extreme ATIVO_TOTAL (w_val r ATIVO_TOTAL) 2000000000) (wide_rows ex_ties)) = 1"
    and "length (filter (\<lambda>r. w_val r ATIVO_TOTAL \<noteq> None) (wide_rows ex_ties)) = 3"
    by auto
  moreover have "length (wide_rows ex_ties) = 4" by (simp add: ex_ties_def)
  ultimately show ?thesis using m v ex_ties_position ex_ties_bank_tab by blast
qed

text \<open>
  Claim C2, as the specification states it: for every entity with a value, its 1-based
  position in the full ranking (the rows with a value, sorted stably in the direction of
  the variable) equals the number of rows strictly more extreme than its value plus 1.
  This fails when two entities have the same value: banks \<open>A\<close> and \<open>B\<close> have equal
  assets and bank \<open>C\<close> larger ones; the full ranking is \<open>C, A, B\<close>, so \<open>B\<close> is shown at
  position 3, while only one row is strictly more extreme and the counting formula
  gives 2.
\<close>

theorem rank_position_counterexample:
  "render_ranking_table (full_ranking ex_ties ATIVO_TOTAL) ATIVO_TOTAL
     = [(1, Some ''C'', Some 5000000000), (2, Some ''A'', Some 2000000000),
        (3, Some ''B'', Some 2000000000)]
   \<and> full_ranking ex_ties ATIVO_TOTAL ! 2 = ex_bank 2 ''B'' (Some 2000000000)
   \<and> bank_position ex_ties (ex_bank 2 ''B'' (Some 2000000000)) ATIVO_TOTAL = Some (2, 3)"
  unfolding ex_render ex_ties_position unfolding ex_ties_ranking by simp

text \<open>
  Claim C2, amended: for every entity with a value, its 1-based position in the full
  ranking equals the number of rows strictly more extreme than its value, plus the
  number of rows of the same value ranked before it, plus 1; the denominator of the
  counted position is the length of the full ranking. So the two positions agree for an
  entity with no row of equal value ranked before it, in particular whenever the values
  are pairwise distinct. (The counted rank is the first component of
  \<^const>\<open>bank_position\<close>; row \<open>i\<close> of the ranking is shown with rank \<open>i + 1\<close>.)
\<close>

theorem rank_position_ties:
  assumes "i < length (full_ranking df var)"
  shows "\<exists>rank n. bank_position df (full_ranking df var ! i) var = Some (rank, n)
           \<and> rank + length (filter (\<lambda>r. w_val r var = w_val (full_ranking df var ! i) var)
                                (take i (full_ranking df var))) = i + 1
           \<and> n = length (full_ranking df var)
           \<and> fst (render_ranking_table (full_ranking df var) var ! i) = i + 1"
proof -
  have "fst (render_ranking_table (full_ranking df var) var ! i) = i + 1"
    using assms by (simp add: render_ranking_table_def nth_enumerate_eq)
  with rank_position[OF assms] show ?thesis by blast
qed

theorem rank_position_ties_witness:
  "2 < length (full_ranking ex_ties ATIVO_TOTAL)
   \<and> bank_position ex_ties (full_ranking ex_ties ATIVO_TOTAL ! 2) ATIVO_TOTAL = Some (2, 3)
   \<and> length (filter (\<lambda>r. w_val r ATIVO_TOTAL = w_val (full_ranking ex_ties ATIVO_TOTAL ! 2) ATIVO_TOTAL)
                (take 2 (full_ranking ex_ties ATIVO_TOTAL))) = 1"
proof -
  have l: "2 < length (full_ranking ex_ties ATIVO_TOTAL)" unfolding ex_ties_ranking by simp
  have p: "bank_position ex_ties (full_ranking ex_ties ATIVO_TOTAL ! 2) ATIVO_TOTAL = Some (2, 3)"
    unfolding ex_ties_ranking using ex_ties_position by simp
  from rank_position_ties[OF l] p
  have "length (filter (\<lambda>r. w_val r ATIVO_TOTAL = w_val (full_ranking ex_ties ATIVO_TOTAL ! 2) ATIVO_TOTAL)
                (take 2 (full_ranking ex_ties ATIVO_TOTAL))) = 1"
    by auto
  with l p show ?thesis by blast
qed

section \<open>Merge and pivot in the IF.Data module\<close>

subsection \<open>One row per entity\<close>

lemma drop_duplicates_mem:
  "x \<in> set (drop_duplicates key seen xs) \<Longrightarrow> key x \<notin> set seen \<and> x \<in> set xs"
proof (induction xs arbitrary: seen)
  case Nil
  then show ?case by simp
next
  case (Cons a xs)
  show ?case
  proof (cases "key a \<in> set seen")
    case True
    with Cons.prems have "x \<in> set (drop_duplicates key seen xs)" by simp
    from Cons.IH[OF this] show ?thesis by simp
  next
    case False
    with Cons.prems consider "x = a" | "x \<in> set (drop_duplicates key (key a # seen) xs)" by auto
    then show ?thesis
    proof cases
      case 1
      then show ?thesis using False by simp
    next
      case 2
      from Cons.IH[OF this] show ?thesis by simp
    qed
  qed
qed

lemma drop_duplicates_distinct: "distinct (map key (drop_duplicates key seen xs))"
proof (induction xs arbitrary: seen)
  case Nil
  then show ?case by simp
next
  case (Cons a xs)
  have "key a \<notin> key ` set (drop_duplicates key (key a # seen) xs)"
  proof
    assume "key a \<in> key ` set (drop_duplicates key (key a # seen) xs)"
    then obtain y where y: "y \<in> set (drop_duplicates key (key a # seen) xs)" "key y = key a"
      by auto
    from drop_duplicates_mem[OF y(1)] y(2) show False by simp
  qed
  with Cons.IH show ?case by simp
qed

lemma filter_institutions_distinct:
  "filter_institutions df_cadastro = Inr reg \<Longrightarrow> distinct (map cad_CodInst reg)"
  by (auto simp: filter_institutions_def Let_def drop_duplicates_distinct split: if_splits)

lemma filter_key_distinct:
  "distinct (map key xs) \<Longrightarrow> length (filter (\<lambda>x. key x = k) xs) \<le> 1"
  by (induction xs) (auto simp: filter_empty_conv image_iff)

lemma merge_names_codes:
  assumes "distinct (map cad_CodInst reg)"
  shows "map w_CodInst (merge_names records reg cod) = [cod]"
proof -
  let ?m = "filter (\<lambda>c. cad_CodInst c = cod) reg"
  have "length ?m \<le> 1" using assms by (rule filter_key_distinct)
  then have "?m = [] \<or> (\<exists>x. ?m = [x])"
    by (cases ?m) (auto simp: le_Suc_eq)
  then show ?thesis
    by (auto simp: merge_names_def Let_def comp_def)
qed

lemma wide_rows_codes:
  assumes "distinct (map cad_CodInst reg)"
  shows "map w_CodInst (concat (map (merge_names records reg) cods)) = cods"
  using merge_names_codes[OF assms, of records]
  by (induction cods) auto

lemma build_ranking_data_codes:
  assumes "distinct (map cad_CodInst reg)"
  shows "map w_CodInst (wide_rows (build_ranking_data df_resumo df_ativo reg))
          = (if all_records df_resumo df_ativo reg = [] then []
             else pivot_index (all_records df_resumo df_ativo reg))"
  by (simp add: build_ranking_data_def Let_def wide_rows_codes[OF assms])

lemma distinct_pivot_index: "distinct (pivot_index records)" "sorted (pivot_index records)"
  by (simp_all add: pivot_index_def)

lemma build_ranking_data_distinct:
  assumes "filter_institutions df_cadastro = Inr reg"
  shows "distinct (map w_CodInst (wide_rows (build_ranking_data df_resumo df_ativo reg)))"
  unfolding build_ranking_data_codes[OF filter_institutions_distinct[OF assms]]
  by (simp add: distinct_pivot_index)

subsection \<open>The derived loss ratio\<close>



lemma collect_ativo_keys:
  "fst ` set (collect_ativo valid rows ad) =
     fst ` set ad \<union> {CodInst row | row. row \<in> set rows \<and> CodInst row \<in> set valid
                                            \<and> NomeColuna row \<in> target_cols}"
proof (induction rows arbitrary: ad)
  case Nil
  then show ?case by simp
next
  case (Cons row rest)
  have k: "fst ` set (AList.update c d ad) = insert c (fst ` set ad)" for c d
    using dom_update[of c d ad] by (simp add: dom_map_of_conv_image_fst)
  show ?case
    by (auto simp: Cons.IH Let_def k)
qed


lemmas var_name_defs = ATIVO_TOTAL_def CAPTACOES_def PATRIMONIO_LIQUIDO_def LUCRO_LIQUIDO_def
  INDICE_BASILEIA_def OPERACOES_CREDITO_def PERDA_ESPERADA_CREDITO_def
















subsection \<open>The example\<close>

lemma col_neq: "ATIVO_COL_BRUTO \<noteq> ATIVO_COL_PERDA" "ATIVO_COL_PERDA \<noteq> ATIVO_COL_BRUTO"
  by (simp_all add: ATIVO_COL_BRUTO_def ATIVO_COL_PERDA_def)




lemma contains_ci_at:
  "map ascii_upper (take (length pat) s) = map ascii_upper pat \<Longrightarrow> contains_ci pat (pre @ s)"
proof (induction pre)
  case Nil
  then show ?case by (cases s) auto
next
  case (Cons a pre)
  then show ?case by simp
qed

lemma ex_names:
  "contains_ci ''PRUDENCIAL'' ''Bank One - PRUDENCIAL''"
  "contains_ci ''PRUDENCIAL'' ''Bank One (copy) - PRUDENCIAL''"
  "contains_ci ''PRUDENCIAL'' ''Bank Two - Prudencial''"
  "\<not> contains_ci ''PRUDENCIAL'' ''Bank''"
proof -
  have "contains_ci ''PRUDENCIAL'' (''Bank One - '' @ ''PRUDENCIAL'')"
    by (rule contains_ci_at) simp
  then show "contains_ci ''PRUDENCIAL'' ''Bank One - PRUDENCIAL''"
    by (simp del: contains_ci.simps)
  have "contains_ci ''PRUDENCIAL'' (''Bank One (copy) - '' @ ''PRUDENCIAL'')"
    by (rule contains_ci_at) simp
  then show "contains_ci ''PRUDENCIAL'' ''Bank One (copy) - PRUDENCIAL''"
    by (simp del: contains_ci.simps)
  have "contains_ci ''PRUDENCIAL'' (''Bank Two - '' @ ''Prudencial'')"
    by (rule contains_ci_at) (simp add: ascii_upper_def)
  then show "contains_ci ''PRUDENCIAL'' ''Bank Two - Prudencial''"
    by (simp del: contains_ci.simps)
  show "\<not> contains_ci ''PRUDENCIAL'' ''Bank''"
    by simp
qed

lemma ex_filter: "filter_institutions ex_cadastro = Inr ex_registry"
  by (simp add: filter_institutions_def ex_cadastro_def ex_registry_def Let_def ex_names
      del: contains_ci.simps)

lemma strip_ativo: "strip ATIVO_TOTAL = ATIVO_TOTAL"
  by (simp add: strip_def ATIVO_TOTAL_def is_space_def)

lemma ativo_resumo: "ATIVO_TOTAL \<in> set RESUMO_VARS" "ATIVO_TOTAL \<noteq> INDICE_BASILEIA"
  by (simp_all add: RESUMO_VARS_def ATIVO_TOTAL_def INDICE_BASILEIA_def)

lemma ex_resumo_records:
  "resumo_records [10, 20] ex_resumo
     = [\<lparr>rec_CodInst = 10, Variable = ATIVO_TOTAL, Value = Some 1000000000\<rparr>,
        \<lparr>rec_CodInst = 20, Variable = ATIVO_TOTAL, Value = Some 2000000000\<rparr>]"
  by (simp add: resumo_records_def resumo_record_def ex_resumo_def strip_ativo ativo_resumo Let_def)

lemma target_mem: "ATIVO_COL_BRUTO \<in> target_cols" "ATIVO_COL_PERDA \<in> target_cols"
  by (simp_all add: target_cols_def)

lemma col_neq2: "ATIVO_COL_OP_CREDITO \<noteq> ATIVO_COL_BRUTO" "ATIVO_COL_OP_CREDITO \<noteq> ATIVO_COL_PERDA"
  by (simp_all add: ATIVO_COL_BRUTO_def ATIVO_COL_PERDA_def ATIVO_COL_OP_CREDITO_def OPERACOES_CREDITO_def)

lemma ex_derived:
  "concat (map derived_records (collect_ativo [10, 20] ex_ativo []))
     = [\<lparr>rec_CodInst = 10, Variable = PERDA_ESPERADA_CREDITO, Value = Some 5\<rparr>]"
  by (simp add: ex_ativo_def target_mem Let_def entity_vals_def derived_records_def dict_get_def
      col_neq col_neq2 round2_def round_half_even_def)

lemma ex_records:
  "all_records ex_resumo ex_ativo ex_registry
     = [\<lparr>rec_CodInst = 10, Variable = ATIVO_TOTAL, Value = Some 1000000000\<rparr>,
        \<lparr>rec_CodInst = 20, Variable = ATIVO_TOTAL, Value = Some 2000000000\<rparr>,
        \<lparr>rec_CodInst = 10, Variable = PERDA_ESPERADA_CREDITO, Value = Some 5\<rparr>]"
proof -
  have v: "map cad_CodInst ex_registry = [10, 20]" by (simp add: ex_registry_def)
  show ?thesis unfolding all_records_def Let_def v ex_resumo_records ex_derived by simp
qed

lemma ex_index: "pivot_index (all_records ex_resumo ex_ativo ex_registry) = [10, 20]"
  unfolding ex_records by (simp add: pivot_index_def)

lemma ex_clean:
  "clean_name (Some ''Bank One - PRUDENCIAL'') = Some ''Bank One''"
  "clean_name (Some ''Bank Two - Prudencial'') = Some ''Bank Two - Prudencial''"
  by (simp_all add: clean_name_def strip_def match_suffix_def strip_dash_def is_space_def)

lemma ex_columns:
  "pivot_columns (all_records ex_resumo ex_ativo ex_registry) = [ATIVO_TOTAL, PERDA_ESPERADA_CREDITO]"
  unfolding ex_records
  by (simp add: pivot_columns_def PIVOT_COLUMN_ORDER_def var_name_defs)

lemma ex_matches:
  "filter (\<lambda>c. cad_CodInst c = 10) ex_registry
     = [\<lparr>cad_CodInst = 10, NomeInstituicao = Some ''Bank One - PRUDENCIAL'', Sr = Some ''S1''\<rparr>]"
  "filter (\<lambda>c. cad_CodInst c = 20) ex_registry
     = [\<lparr>cad_CodInst = 20, NomeInstituicao = Some ''Bank Two - Prudencial'', Sr = Some ''S3''\<rparr>]"
  by (simp_all add: ex_registry_def)

lemma ex_wide:
  "wide_columns (build_ranking_data ex_resumo ex_ativo ex_registry) = [ATIVO_TOTAL, PERDA_ESPERADA_CREDITO]"
  "map w_CodInst (wide_rows (build_ranking_data ex_resumo ex_ativo ex_registry)) = [10, 20]"
  "map w_Nome (wide_rows (build_ranking_data ex_resumo ex_ativo ex_registry))
     = [Some ''Bank One'', Some ''Bank Two - Prudencial'']"
proof -
  have ne: "all_records ex_resumo ex_ativo ex_registry \<noteq> []" unfolding ex_records by simp
  show "wide_columns (build_ranking_data ex_resumo ex_ativo ex_registry) = [ATIVO_TOTAL, PERDA_ESPERADA_CREDITO]"
    by (simp add: build_ranking_data_def Let_def ne ex_columns)
  show "map w_CodInst (wide_rows (build_ranking_data ex_resumo ex_ativo ex_registry)) = [10, 20]"
    by (simp add: build_ranking_data_def Let_def ne ex_index merge_names_def ex_matches)
  show "map w_Nome (wide_rows (build_ranking_data ex_resumo ex_ativo ex_registry))
     = [Some ''Bank One'', Some ''Bank Two - Prudencial'']"
    by (simp add: build_ranking_data_def Let_def ne ex_index merge_names_def ex_matches ex_clean)
qed

lemma ex_assets:
  "map (\<lambda>r. w_val r ATIVO_TOTAL) (wide_rows (build_ranking_data ex_resumo ex_ativo ex_registry))
     = [Some 1000000000, Some 2000000000]"
proof -
  have ne: "all_records ex_resumo ex_ativo ex_registry \<noteq> []" unfolding ex_records by simp
  have c: "pivot_cell (all_records ex_resumo ex_ativo ex_registry) 10 ATIVO_TOTAL = Some 1000000000"
          "pivot_cell (all_records ex_resumo ex_ativo ex_registry) 20 ATIVO_TOTAL = Some 2000000000"
    unfolding ex_records by (simp_all add: pivot_cell_def first_valid_def var_name_defs)
  show ?thesis
    by (simp add: build_ranking_data_def Let_def ne ex_index merge_names_def ex_matches
        ex_columns c comp_def)
qed

subsection \<open>The claims\<close>

text \<open>
  Claim C10: every wide table produced by \<open>build_ranking_data\<close> from a registry that
  \<open>filter_institutions\<close> returned has at most one row per entity identifier
  (\<open>CodInst\<close>): the registry has one row per identifier, the pivot has one row per
  identifier, and the left join onto that registry yields exactly the rows of the pivot.
\<close>

theorem wide_table_one_row_per_entity:
  assumes "filter_institutions df_cadastro = Inr reg"
  shows "distinct (map cad_CodInst reg)
    \<and> distinct (pivot_index (all_records df_resumo df_ativo reg))
    \<and> map w_CodInst (wide_rows (build_ranking_data df_resumo df_ativo reg))
         = (if all_records df_resumo df_ativo reg = [] then []
            else pivot_index (all_records df_resumo df_ativo reg))
    \<and> distinct (map w_CodInst (wide_rows (build_ranking_data df_resumo df_ativo reg)))"
  using filter_institutions_distinct[OF assms]
    build_ranking_data_codes[OF filter_institutions_distinct[OF assms]]
    build_ranking_data_distinct[OF assms] distinct_pivot_index(1)
  by blast

theorem wide_table_one_row_per_entity_witness:
  "filter_institutions ex_cadastro = Inr ex_registry
   \<and> map cad_CodInst (cad_rows ex_cadastro) = [10, 20, 10, 30]
   \<and> map w_CodInst (wide_rows (build_ranking_data ex_resumo ex_ativo ex_registry)) = [10, 20]
   \<and> distinct (map w_CodInst (wide_rows (build_ranking_data ex_resumo ex_ativo ex_registry)))"
proof -
  from wide_table_one_row_per_entity[OF ex_filter, of ex_resumo ex_ativo]
  have "distinct (map w_CodInst (wide_rows (build_ranking_data ex_resumo ex_ativo ex_registry)))"
    by blast
  moreover have "map cad_CodInst (cad_rows ex_cadastro) = [10, 20, 10, 30]"
    by (simp add: ex_cadastro_def)
  ultimately show ?thesis using ex_filter ex_wide(2) by blast
qed



section \<open>Resampling\<close>

lemma fold_min_Min: "fold min xs (x::'a::linorder) = Min (set (x # xs))"
  by (simp add: Min.set_eq_fold del: set_simps)

lemma resample_mean_eq:
  assumes "df \<noteq> []"
  shows "resample_mean f df
           = map (\<lambda>p. (period_label f p, bin_mean f df p))
                 [Min (periods f df) ..< Suc (Max (periods f df))]"
proof -
  obtain r rs where df: "df = r # rs" using assms by (cases df) auto
  let ?g = "\<lambda>row. the (period_of f (fst row))"
  have s: "set (?g r # map ?g rs) = periods f df" by (simp add: periods_def df)
  have "resample_mean f df = map (\<lambda>p. (period_label f p, bin_mean f df p))
          [Min (set (?g r # map ?g rs)) ..< Suc (Max (set (?g r # map ?g rs)))]"
    by (simp add: resample_mean_def df fold_min_Min fold_max_Max del: set_simps)
  then show ?thesis unfolding s .
qed

lemma resample_bins:
  assumes "freq = ''M'' \<or> freq = ''A''" and "df \<noteq> []"
  shows "\<exists>out. resample_data df freq = Some out
      \<and> length out = Max (periods (pd_freq freq) df) - Min (periods (pd_freq freq) df) + 1
      \<and> (\<forall>i \<le> Max (periods (pd_freq freq) df) - Min (periods (pd_freq freq) df).
            fst (out ! i) = period_label (pd_freq freq) (Min (periods (pd_freq freq) df) + i)
            \<and> (\<forall>c. snd (out ! i) c =
                  (let vs = period_values (pd_freq freq) df (Min (periods (pd_freq freq) df) + i) c
                   in if vs = [] then None else Some (sum_list vs / real (length vs)))))"
proof -
  let ?f = "pd_freq freq"
  let ?lo = "Min (periods ?f df)" and ?hi = "Max (periods ?f df)"
  have fin: "finite (periods ?f df)" "periods ?f df \<noteq> {}"
    using assms(2) by (simp_all add: periods_def)
  then have le: "?lo \<le> ?hi" by simp
  have f: "?f \<in> {''ME'', ''YE''}" using assms(1) by (auto simp: pd_freq_def)
  have out: "resample_data df freq = Some (map (\<lambda>p. (period_label ?f p, bin_mean ?f df p)) [?lo ..< Suc ?hi])"
    using f by (simp add: resample_data_def resample_mean_eq[OF assms(2)])
  have len: "length [?lo ..< Suc ?hi] = ?hi - ?lo + 1" using le by simp
  show ?thesis
    unfolding out using le
    by (auto simp: Let_def bin_mean_def mean_def nth_append simp del: upt_Suc)
qed

lemma ex_periods: "periods ''ME'' ex_series = {24288, 24290}"
  by (simp add: periods_def ex_series_def period_of_def)

lemma ex_resampled:
  "resample_data ex_series ''M''
     = Some [((2024, 1, 31), bin_mean ''ME'' ex_series 24288),
             ((2024, 2, 29), bin_mean ''ME'' ex_series 24289),
             ((2024, 3, 31), bin_mean ''ME'' ex_series 24290)]"
proof -
  have ne: "ex_series \<noteq> []" by (simp add: ex_series_def)
  show ?thesis
    by (simp add: resample_data_def pd_freq_def resample_mean_eq[OF ne] ex_periods upt_rec
        period_label_def days_in_month_def leap_year_def)
qed

lemma ex_period_values:
  "period_values ''ME'' ex_series 24288 ''v'' = [1]"
  "period_values ''ME'' ex_series 24289 c = []"
  "period_values ''ME'' ex_series 24290 ''v'' = [3]"
  by (simp_all add: period_values_def ex_series_def period_of_def)

lemma ex_bins: "bin_mean ''ME'' ex_series 24288 ''v'' = Some 1" "bin_mean ''ME'' ex_series 24289 c = None"
  "bin_mean ''ME'' ex_series 24290 ''v'' = Some 3"
  by (simp_all add: bin_mean_def ex_period_values mean_def)

text \<open>
  Claim C3, as the specification states it: resampling to monthly or annual frequency
  groups the timestamps into periods and takes the mean of the values of each period,
  and a period without observations is absent from the output, not emitted as a null
  row. The last part fails: a series observed in January and in March 2024 has no
  observation in February, and its monthly resampling has three rows, the one of
  February holding the missing marker.
\<close>

theorem resample_empty_period_counterexample:
  "period_values ''ME'' ex_series 24289 ''v'' = []
   \<and> period_label ''ME'' 24289 = (2024, 2, 29)
   \<and> (\<exists>out. resample_data ex_series ''M'' = Some out
         \<and> map fst out = [(2024, 1, 31), (2024, 2, 29), (2024, 3, 31)]
         \<and> map (\<lambda>row. snd row ''v'') out = [Some 1, None, Some 3])"
  unfolding ex_resampled
  by (simp add: ex_period_values ex_bins period_label_def days_in_month_def leap_year_def)

text \<open>
  Claim C3, amended: resampling a date-indexed frame that is not empty to monthly or
  annual frequency yields one row for every period from the period of the earliest
  timestamp to the period of the latest one, in order, labelled by the last day of the
  period; the cell of a column is the arithmetic mean of the values of that column that
  fall into the period, and it is the missing marker when the period holds no value. So
  a period without observations between the first and the last observed period is
  emitted as a row of missing values; periods before the first and after the last
  observation are absent.
\<close>

theorem resample_data_bins:
  assumes "freq = ''M'' \<or> freq = ''A''" and "df \<noteq> []"
  shows "\<exists>out. resample_data df freq = Some out
      \<and> length out = Max (periods (pd_freq freq) df) - Min (periods (pd_freq freq) df) + 1
      \<and> (\<forall>i \<le> Max (periods (pd_freq freq) df) - Min (periods (pd_freq freq) df).
            fst (out ! i) = period_label (pd_freq freq) (Min (periods (pd_freq freq) df) + i)
            \<and> (\<forall>c. snd (out ! i) c =
                  (let vs = period_values (pd_freq freq) df (Min (periods (pd_freq freq) df) + i) c
                   in if vs = [] then None else Some (sum_list vs / real (length vs)))))"
  using resample_bins[OF assms] .

theorem resample_data_bins_witness:
  "(''M'' = ''M'' \<or> ''M'' = ''A'') \<and> ex_series \<noteq> []
   \<and> Min (periods (pd_freq ''M'') ex_series) = 24288
   \<and> Max (periods (pd_freq ''M'') ex_series) = 24290
   \<and> (\<exists>out. resample_data ex_series ''M'' = Some out \<and> length out = 3
         \<and> fst (out ! 1) = (2024, 2, 29) \<and> snd (out ! 1) ''v'' = None
         \<and> snd (out ! 2) ''v'' = Some 3)"
proof -
  have f: "''M'' = ''M'' \<or> ''M'' = ''A''" by simp
  have ne: "ex_series \<noteq> []" by (simp add: ex_series_def)
  have p: "pd_freq ''M'' = ''ME''" by (simp add: pd_freq_def)
  have lo: "Min (periods (pd_freq ''M'') ex_series) = 24288"
    and hi: "Max (periods (pd_freq ''M'') ex_series) = 24290"
    unfolding p ex_periods by simp_all
  from resample_data_bins[OF f ne] obtain out where
    o: "resample_data ex_series ''M'' = Some out" and
    l: "length out = Max (periods (pd_freq ''M'') ex_series) - Min (periods (pd_freq ''M'') ex_series) + 1" and
    c: "\<forall>i \<le> Max (periods (pd_freq ''M'') ex_series) - Min (periods (pd_freq ''M'') ex_series).
            fst (out ! i) = period_label (pd_freq ''M'') (Min (periods (pd_freq ''M'') ex_series) + i)
            \<and> (\<forall>c. snd (out ! i) c =
                  (let vs = period_values (pd_freq ''M'') ex_series (Min (periods (pd_freq ''M'') ex_series) + i) c
                   in if vs = [] then None else Some (sum_list vs / real (length vs))))"
    by blast
  have lo': "Min (periods ''ME'' ex_series) = 24288" and hi': "Max (periods ''ME'' ex_series) = 24290"
    unfolding ex_periods by simp_all
  have l3: "length out = 3" using l unfolding lo hi by simp
  note c' = c[unfolded p lo' hi', rule_format]
  have c1: "fst (out ! 1) = period_label ''ME'' (24288 + 1)"
      "snd (out ! 1) ''v'' = (let vs = period_values ''ME'' ex_series (24288 + 1) ''v''
                   in if vs = [] then None else Some (sum_list vs / real (length vs)))"
      "snd (out ! 2) ''v'' = (let vs = period_values ''ME'' ex_series (24288 + 2) ''v''
                   in if vs = [] then None else Some (sum_list vs / real (length vs)))"
    using c'[of 1] c'[of 2] by simp_all
  have r1: "fst (out ! 1) = (2024, 2, 29)"
    using c1(1) by (simp add: period_label_def days_in_month_def leap_year_def)
  have r2: "snd (out ! 1) ''v'' = None" using c1(2) by (simp add: ex_period_values)
  have r3: "snd (out ! 2) ''v'' = Some 3" using c1(3) by (simp add: ex_period_values)
  from f ne lo hi o l3 r1 r2 r3 show ?thesis by blast
qed

section \<open>The geo-shading classifier\<close>

lemma south: "filter (\<lambda>uf. STATE_TO_REGION uf = Some ''S'') ALL_STATES = [''PR'', ''RS'', ''SC'']"
  by (simp add: STATE_TO_REGION_def REGIONS_def ALL_STATES_def)

lemma south_states:
  "STATE_TO_REGION ''PR'' = Some ''S''" "STATE_TO_REGION ''RS'' = Some ''S''" "STATE_TO_REGION ''SC'' = Some ''S''"
  by (simp_all add: STATE_TO_REGION_def REGIONS_def)

lemma ex1_avg: "npl_avg ex_single_state ''PR'' = Some 3" "npl_avg ex_single_state ''RS'' = None"
  "npl_avg ex_single_state ''SC'' = None"
  by (simp_all add: npl_avg_def ex_single_state_def mean_def)

lemma ex1_range: "region_ranges ex_single_state ''S'' = Some (0, 1)"
  by (simp add: region_ranges_def region_npl_values_def south ex1_avg)

lemma ex1_factor: "shade_factor ex_single_state ''PR'' = Some 3"
  by (simp add: shade_factor_def south_states ex1_range ex1_avg)

lemma ex1_color: "fill_color ex_single_state ''PR'' = Some (43, - 23, 243)"
  by (simp add: fill_color_def ex1_factor south_states REGION_COLORS_def shade_color_def
      shade_channel_def py_int_def)


lemma state_keys: "STATE_TO_REGION uf = Some reg \<Longrightarrow> uf \<in> set ALL_STATES \<and> uf \<noteq> []"
  by (auto simp: STATE_TO_REGION_def REGIONS_def ALL_STATES_def split: if_splits)

lemma region_values_mem:
  assumes "STATE_TO_REGION uf = Some reg" "npl_avg sd uf = Some v"
  shows "v \<in> set (dropna (map snd (region_npl_values sd reg)))"
proof -
  have "uf \<in> set (filter (\<lambda>u. STATE_TO_REGION u = Some reg) ALL_STATES)"
    using assms(1) state_keys by simp
  then have "Some v \<in> set (map snd (region_npl_values sd reg))"
    using assms(2) by (force simp: region_npl_values_def image_iff)
  then show ?thesis by (simp add: set_dropna)
qed

lemma region_ranges_eq:
  assumes "dropna (map snd (region_npl_values sd reg)) = v # vs"
  shows "region_ranges sd reg
          = Some (if Min (set (v # vs)) < Max (set (v # vs))
                  then (Min (set (v # vs)), Max (set (v # vs))) else (0, 1))"
proof -
  obtain i items where items: "region_npl_values sd reg = i # items"
    using assms by (cases "region_npl_values sd reg") auto
  have "region_ranges sd reg
          = (case dropna (map snd (region_npl_values sd reg)) of
               [] \<Rightarrow> Some (0, 1)
             | v # vs \<Rightarrow>
                 if fold max vs v > fold min vs v then Some (fold min vs v, fold max vs v)
                 else Some (0, 1))"
    unfolding region_ranges_def items by simp
  then show ?thesis
    unfolding assms by (simp add: fold_min_Min fold_max_Max del: set_simps)
qed

lemma shade_factor_missing:
  assumes "STATE_TO_REGION uf = Some reg" "npl_avg sd uf = None"
  shows "shade_factor sd uf = Some (1/2)"
  using assms state_keys[OF assms(1)] by (simp add: shade_factor_def Let_def)

lemma shade_factor_value:
  assumes "STATE_TO_REGION uf = Some reg" "npl_avg sd uf = Some v"
  shows "shade_factor sd uf =
     Some (let vals = dropna (map snd (region_npl_values sd reg))
           in if Min (set vals) < Max (set vals)
              then (v - Min (set vals)) / (Max (set vals) - Min (set vals))
              else v)"
proof -
  let ?vals = "dropna (map snd (region_npl_values sd reg))"
  from region_values_mem[OF assms] obtain x xs where vals: "?vals = x # xs"
    by (cases ?vals) auto
  show ?thesis
    using state_keys[OF assms(1)] assms
    by (simp add: shade_factor_def Let_def region_ranges_eq[OF vals] vals del: set_simps)
qed

lemma shade_factor_unit:
  assumes "STATE_TO_REGION uf = Some reg" "npl_avg sd uf = Some v"
    and "Min (set (dropna (map snd (region_npl_values sd reg))))
           < Max (set (dropna (map snd (region_npl_values sd reg))))"
  shows "\<exists>f. shade_factor sd uf = Some f \<and> 0 \<le> f \<and> f \<le> 1"
proof -
  let ?vals = "dropna (map snd (region_npl_values sd reg))"
  have m: "v \<in> set ?vals" by (rule region_values_mem[OF assms(1,2)])
  have "Min (set ?vals) \<le> v" "v \<le> Max (set ?vals)" using m by simp_all
  then have "0 \<le> (v - Min (set ?vals)) / (Max (set ?vals) - Min (set ?vals))"
    "(v - Min (set ?vals)) / (Max (set ?vals) - Min (set ?vals)) \<le> 1"
    using assms(3) by (simp_all add: divide_simps)
  then show ?thesis
    unfolding shade_factor_value[OF assms(1,2)] Let_def using assms(3) by simp
qed

lemma ex3_avg: "npl_avg ex_three_states ''PR'' = Some 2" "npl_avg ex_three_states ''RS'' = Some 3"
  "npl_avg ex_three_states ''SC'' = Some 4"
  by (simp_all add: npl_avg_def ex_three_states_def mean_def)

lemma ex3_factors:
  "shade_factor ex_three_states ''PR'' = Some 0"
  "shade_factor ex_three_states ''RS'' = Some (1/2)"
  "shade_factor ex_three_states ''SC'' = Some 1"
proof -
  have r: "region_ranges ex_three_states ''S'' = Some (2, 4)"
    by (simp add: region_ranges_def region_npl_values_def south ex3_avg)
  show "shade_factor ex_three_states ''PR'' = Some 0"
    "shade_factor ex_three_states ''RS'' = Some (1/2)"
    "shade_factor ex_three_states ''SC'' = Some 1"
    by (simp_all add: shade_factor_def south_states r ex3_avg)
qed

text \<open>
  Claim C4: the intensity factor of a state is \<open>(value - min) / (max - min)\<close> over the
  values of its region and lies in \<open>[0, 1]\<close>; it is 0.5 when the minimum of the region
  equals its maximum or all values of the region are missing, and 0.5 for a state whose
  own value is missing. The lemmas above give the parts that hold: a state without a
  value gets 0.5 (\<open>shade_factor_missing\<close>), and when the minimum of the region is below
  its maximum the factor is the normalised value, within \<open>[0, 1]\<close>
  (\<open>shade_factor_value\<close>, \<open>shade_factor_unit\<close>). When the minimum equals the maximum the
  code stores the range \<open>(0, 1)\<close>, for which the guard \<open>rng[1] > rng[0]\<close> holds, and the
  factor of a state with a value is the value itself. With the state PR alone
  reporting, both rates 3, the range of its region is \<open>(0, 1)\<close>, the factor is 3, not
  0.5, and the green channel of the shaded colour is negative.
\<close>

theorem shade_factor_degenerate_range:
  "npl_avg ex_single_state ''PR'' = Some 3
   \<and> dropna (map snd (region_npl_values ex_single_state ''S'')) = [3]
   \<and> region_ranges ex_single_state ''S'' = Some (0, 1)
   \<and> shade_factor ex_single_state ''PR'' = Some 3
   \<and> fill_color ex_single_state ''PR'' = Some (43, - 23, 243)"
  by (simp add: ex1_avg ex1_range ex1_factor ex1_color region_npl_values_def south)

end
